theory Spec2Isabelle
  imports Main "HOL-Library.AList"
begin

section \<open>XML documents as lxml presents them\<close>

text \<open>
  An element carries its tag, its attributes, the source line lxml recorded for it and its
  children in document order. Comments and processing instructions are leaves whose tag
  never equals one of the names the validator looks for; they are elements with such a tag.
\<close>

datatype elem =
  Elem (tag: string) (attrib: "(string \<times> string) list") (sourceline: "nat option")
    (children: "elem list")

text \<open>\<^verbatim>\<open>elem.get(name)\<close>: the attribute's value, or \<^verbatim>\<open>None\<close>.\<close>

definition get :: "elem \<Rightarrow> string \<Rightarrow> string option" where
  "get e name = map_of (attrib e) name"

text \<open>
  Python's truth value of what \<^verbatim>\<open>get\<close> returns: \<^verbatim>\<open>None\<close> and the empty string are
  false. The source decides with it whether an attribute is there (\<^verbatim>\<open>if page_id:\<close>,
  \<^verbatim>\<open>if not kid:\<close>).
\<close>

definition truthy :: "string option \<Rightarrow> bool" where
  "truthy v = (case v of None \<Rightarrow> False | Some s \<Rightarrow> s \<noteq> [])"

text \<open>\<^verbatim>\<open>elem.iter()\<close>: the element itself, then its descendants, in document order.\<close>

fun iter :: "elem \<Rightarrow> elem list" where
  "iter (Elem t a s cs) = Elem t a s cs # concat (map iter cs)"

text \<open>
  \<^verbatim>\<open>root.findall(".//t")\<close>: the descendants of \<open>root\<close> (not \<open>root\<close> itself) with tag \<open>t\<close>,
  in document order; \<^verbatim>\<open>root.find(".//t")\<close> is the first of them.
\<close>

definition findall :: "elem \<Rightarrow> string \<Rightarrow> elem list" where
  "findall root t = filter (\<lambda>e. tag e = t) (concat (map iter (children root)))"

definition find_elem :: "elem \<Rightarrow> string \<Rightarrow> elem option" where
  "find_elem root t = (case findall root t of [] \<Rightarrow> None | e # _ \<Rightarrow> Some e)"

datatype line_number = Line nat | Unknown

definition get_line_number :: "elem \<Rightarrow> line_number" where
  "get_line_number e =
     (case sourceline e of
        None \<Rightarrow> Unknown
      | Some n \<Rightarrow> if n \<noteq> 0 then Line n else Unknown)"

record violation =
  file_name :: string
  line_no :: line_number
  message :: string

text \<open>What an f-string prints for a value that may be \<^verbatim>\<open>None\<close>.\<close>

definition fmt :: "string option \<Rightarrow> string" where
  "fmt v = (case v of None \<Rightarrow> ''None'' | Some s \<Rightarrow> s)"

section \<open>The letter / page / line map\<close>

text \<open>
  \<^verbatim>\<open>letter_pages[letter][page]\<close> is a set of line indices. A dictionary is an association
  list in insertion order with one entry per key: \<open>AList.update\<close> replaces the value of a
  key that is there and appends a new key at the end, as a Python \<^verbatim>\<open>dict\<close> does.
\<close>

type_synonym page_lines = "(string \<times> string set) list"
type_synonym letter_pages = "(string \<times> page_lines) list"

text \<open>What a \<^verbatim>\<open>defaultdict\<close> hands out for a key: the stored value, or a fresh empty one.\<close>

definition pages_of :: "letter_pages \<Rightarrow> string \<Rightarrow> page_lines" where
  "pages_of m letter_id = (case map_of m letter_id of None \<Rightarrow> [] | Some ps \<Rightarrow> ps)"

definition lines_of :: "page_lines \<Rightarrow> string \<Rightarrow> string set" where
  "lines_of ps page_id = (case map_of ps page_id of None \<Rightarrow> {} | Some ls \<Rightarrow> ls)"

text \<open>\<^verbatim>\<open>letter_pages[letter][page].add(line)\<close>\<close>

definition add_line :: "letter_pages \<Rightarrow> string \<Rightarrow> string \<Rightarrow> string \<Rightarrow> letter_pages" where
  "add_line m letter_id page_id line_id =
     AList.update letter_id
       (AList.update page_id (insert line_id (lines_of (pages_of m letter_id) page_id))
          (pages_of m letter_id)) m"

text \<open>\<^verbatim>\<open>map_a[letter][page].update(line_set)\<close>\<close>

definition update_lines ::
  "letter_pages \<Rightarrow> string \<Rightarrow> string \<Rightarrow> string set \<Rightarrow> letter_pages" where
  "update_lines m letter_id page_id line_set =
     AList.update letter_id
       (AList.update page_id (lines_of (pages_of m letter_id) page_id \<union> line_set)
          (pages_of m letter_id)) m"

record brief_state =
  current_letter :: "string option"
  current_page :: "string option"
  letter_pages :: letter_pages

text \<open>The body of the loop of \<^verbatim>\<open>build_letter_page_line_map_brief\<close>.\<close>

definition brief_step :: "brief_state \<Rightarrow> elem \<Rightarrow> brief_state" where
  "brief_step s e =
     (if tag e = ''letterText'' then s\<lparr>current_letter := get e ''letter''\<rparr>
      else if tag e = ''page'' then
        (let page_index = get e ''index''
         in if truthy page_index then s\<lparr>current_page := page_index\<rparr> else s)
      else if tag e = ''line'' then
        (let line_index = get e ''index''
         in if truthy (current_letter s) \<and> truthy (current_page s) \<and> truthy line_index
            then s\<lparr>letter_pages :=
                     add_line (letter_pages s) (the (current_letter s))
                       (the (current_page s)) (the line_index)\<rparr>
            else s)
      else s)"

definition brief_scan :: "elem list \<Rightarrow> brief_state" where
  "brief_scan es =
     foldl brief_step \<lparr>current_letter = None, current_page = None, letter_pages = []\<rparr> es"

definition build_letter_page_line_map_brief :: "elem \<Rightarrow> letter_pages" where
  "build_letter_page_line_map_brief doc_root =
     (let doc_elem = (case find_elem doc_root ''document'' of
                        None \<Rightarrow> doc_root
                      | Some d \<Rightarrow> d)
      in letter_pages (brief_scan (iter doc_elem)))"

text \<open>
  The inner loop of \<^verbatim>\<open>build_letter_page_line_map_trad\<close>: the state is the current page
  and the map. The block itself, the first element \<^verbatim>\<open>iter\<close> yields, is skipped.
\<close>

definition trad_step ::
  "string \<Rightarrow> string option \<times> letter_pages \<Rightarrow> elem \<Rightarrow> string option \<times> letter_pages" where
  "trad_step letter_id s e =
     (if tag e = ''page'' then
        (let pidx = get e ''index'' in if truthy pidx then (pidx, snd s) else s)
      else if tag e = ''line'' then
        (let lidx = get e ''index''
         in if truthy (fst s) \<and> truthy lidx
            then (fst s, add_line (snd s) letter_id (the (fst s)) (the lidx))
            else s)
      else s)"

definition trad_block :: "letter_pages \<Rightarrow> elem \<Rightarrow> letter_pages" where
  "trad_block m letter_trad =
     (let letter_id = get letter_trad ''letter''
      in if \<not> truthy letter_id then m
         else snd (foldl (trad_step (the letter_id)) (None, m) (tl (iter letter_trad))))"

definition build_letter_page_line_map_trad :: "elem \<Rightarrow> letter_pages" where
  "build_letter_page_line_map_trad trad_root =
     foldl trad_block [] (findall trad_root ''letterTradition'')"

definition merge_pages :: "string \<Rightarrow> letter_pages \<Rightarrow> page_lines \<Rightarrow> letter_pages" where
  "merge_pages letter_id map_a pages_dict =
     foldl (\<lambda>m (page_id, line_set). update_lines m letter_id page_id line_set)
       map_a pages_dict"

definition merge_page_line_maps :: "letter_pages \<Rightarrow> letter_pages \<Rightarrow> letter_pages" where
  "merge_page_line_maps map_a map_b =
     foldl (\<lambda>m (letter_id, pages_dict). merge_pages letter_id m pages_dict) map_a map_b"

text \<open>The line set the map holds for a letter and a page; empty when there is none.\<close>

definition lookup_lines :: "letter_pages \<Rightarrow> string \<Rightarrow> string \<Rightarrow> string set" where
  "lookup_lines m letter_id page_id = lines_of (pages_of m letter_id) page_id"

text \<open>\<^verbatim>\<open>key in d\<close> for a key that may be \<^verbatim>\<open>None\<close>; the keys of the maps are strings.\<close>

definition has_key :: "string option \<Rightarrow> (string \<times> 'v) list \<Rightarrow> bool" where
  "has_key k d = (case k of None \<Rightarrow> False | Some s \<Rightarrow> map_of d s \<noteq> None)"

definition has_line :: "string option \<Rightarrow> string set \<Rightarrow> bool" where
  "has_line k ls = (case k of None \<Rightarrow> False | Some s \<Rightarrow> s \<in> ls)"

text \<open>A well-formed dictionary of dictionaries: no key twice, at either level.\<close>

definition wf_pages :: "letter_pages \<Rightarrow> bool" where
  "wf_pages m =
     (distinct (map fst m) \<and> list_all (\<lambda>(l, ps). distinct (map fst ps)) m)"

section \<open>Violations and the internal-link check\<close>

text \<open>The dictionary \<^verbatim>\<open>{"file": ..., "line": get_line_number(elem), "message": ...}\<close>.\<close>

definition violation_at :: "string \<Rightarrow> elem \<Rightarrow> string \<Rightarrow> violation" where
  "violation_at file_path e msg =
     \<lparr>file_name = file_path, line_no = get_line_number e, message = msg\<rparr>"

text \<open>
  The body of the loop of \<^verbatim>\<open>validate_intlinks\<close>. \<open>letter_refs\<close> is the set comprehension
  over \<^verbatim>\<open>desc.get('letter')\<close>, so it may hold \<^verbatim>\<open>None\<close>.
\<close>

definition intlink_step ::
  "string \<Rightarrow> letter_pages \<Rightarrow> string option set \<Rightarrow> violation list \<Rightarrow> elem \<Rightarrow> violation list"
  where
  "intlink_step file_path lp letter_refs errors intlink =
     (let letter_id = get intlink ''letter'';
          page_id = get intlink ''page'';
          line_id = get intlink ''line''
      in if \<not> truthy letter_id \<or> letter_id \<notin> letter_refs then
           errors @ [violation_at file_path intlink (''Invalid intlink letter='' @ fmt letter_id)]
         else if \<not> has_key letter_id lp then
           errors @ [violation_at file_path intlink
                       (''No pages known for letter='' @ fmt letter_id @ '' in intlink'')]
         else if truthy page_id then
           (if \<not> has_key page_id (pages_of lp (the letter_id)) then
              errors @ [violation_at file_path intlink
                          (''Invalid page='' @ fmt page_id @ '' for letter='' @ fmt letter_id
                             @ '' in intlink'')]
            else if truthy line_id then
              (if \<not> has_line line_id (lines_of (pages_of lp (the letter_id)) (the page_id))
               then errors @ [violation_at file_path intlink
                                (''Invalid line='' @ fmt line_id @ '' for letter=''
                                   @ fmt letter_id @ '', page='' @ fmt page_id
                                   @ '' in intlink'')]
               else errors)
            else errors)
         else if truthy line_id then
           errors @ [violation_at file_path intlink
                       (''intlink has line='' @ fmt line_id @ '' but no page=? for letter=''
                          @ fmt letter_id)]
         else errors)"

definition validate_intlinks ::
  "elem \<Rightarrow> string \<Rightarrow> letter_pages \<Rightarrow> string option set \<Rightarrow> violation list \<Rightarrow> violation list"
  where
  "validate_intlinks xml_root file_path lp letter_refs errors =
     foldl (intlink_step file_path lp letter_refs) errors (findall xml_root ''intlink'')"

section \<open>Commentary entries and subsections\<close>

text \<open>
  The identifier pools are Python sets that only grow. A pool is kept as the list of its
  members in the order they were added, so that how often an identifier is registered can
  be stated; \<^verbatim>\<open>s.add(x)\<close> leaves a set that holds \<open>x\<close> as it is.
\<close>

definition set_add :: "'a \<Rightarrow> 'a list \<Rightarrow> 'a list" where
  "set_add x xs = (if x \<in> set xs then xs else xs @ [x])"

abbreviation sq :: string where
  "sq \<equiv> [CHR 0x27]"

definition missing_id_msg :: "string \<Rightarrow> string" where
  "missing_id_msg kind = ''<'' @ kind @ ''> missing @id''"

definition dup_local_msg :: "string \<Rightarrow> string \<Rightarrow> string" where
  "dup_local_msg kind kid =
     ''Duplicate <'' @ kind @ '' id='' @ sq @ kid @ sq @ ''> in this file''"

definition dup_global_msg :: "string \<Rightarrow> string \<Rightarrow> string" where
  "dup_global_msg kind kid =
     ''Duplicate <'' @ kind @ '' id='' @ sq @ kid @ sq @ ''> across multiple registers''"

definition missing_lemma_msg :: "string \<Rightarrow> string \<Rightarrow> string" where
  "missing_lemma_msg kind kid =
     ''<'' @ kind @ '' id='' @ sq @ kid @ sq @ ''> missing <lemma> child''"

text \<open>
  The body of the two loops of \<^verbatim>\<open>gather_commentaries_and_subsections\<close>, which differ in
  the tag name only (\<open>kind\<close> is \<open>''kommentar''\<close> or \<open>''subsection''\<close>). The state is the
  local set of the document, the error list and the global pool of the kind.
\<close>

definition gather_step ::
  "string \<Rightarrow> string \<Rightarrow> string list \<times> violation list \<times> string list \<Rightarrow> elem
     \<Rightarrow> string list \<times> violation list \<times> string list" where
  "gather_step kind file_path s kom =
     (case s of (local_ids, errors, global_ids) \<Rightarrow>
        let kid = get kom ''id''
        in if \<not> truthy kid then
             (local_ids, errors @ [violation_at file_path kom (missing_id_msg kind)], global_ids)
           else
             let (local_ids1, errors1) =
                   (if the kid \<in> set local_ids
                    then (local_ids,
                          errors @ [violation_at file_path kom (dup_local_msg kind (the kid))])
                    else (set_add (the kid) local_ids, errors));
                 (errors2, global_ids2) =
                   (if the kid \<in> set global_ids
                    then (errors1 @ [violation_at file_path kom (dup_global_msg kind (the kid))],
                          global_ids)
                    else (errors1, set_add (the kid) global_ids));
                 errors3 =
                   (if find_elem kom ''lemma'' = None
                    then errors2 @ [violation_at file_path kom (missing_lemma_msg kind (the kid))]
                    else errors2)
             in (local_ids1, errors3, global_ids2))"

text \<open>The registry: the error list and the two global pools.\<close>

record registry =
  errors :: "violation list"
  global_kommentar_ids :: "string list"
  global_subsection_ids :: "string list"

definition gather_commentaries_and_subsections :: "elem \<Rightarrow> string \<Rightarrow> registry \<Rightarrow> registry" where
  "gather_commentaries_and_subsections xml_root file_path r =
     (case foldl (gather_step ''kommentar'' file_path)
             ([], errors r, global_kommentar_ids r) (findall xml_root ''kommentar'') of
        (local_komm_ids, errors1, komm) \<Rightarrow>
          (case foldl (gather_step ''subsection'' file_path)
                  ([], errors1, global_subsection_ids r) (findall xml_root ''subsection'') of
             (local_sub_ids, errors2, subs) \<Rightarrow>
               \<lparr>errors = errors2, global_kommentar_ids = komm, global_subsection_ids = subs\<rparr>))"

definition gather_registers :: "(string \<times> elem) list \<Rightarrow> registry" where
  "gather_registers register_trees =
     foldl (\<lambda>r (rfile, rroot). gather_commentaries_and_subsections rroot rfile r)
       \<lparr>errors = [], global_kommentar_ids = [], global_subsection_ids = []\<rparr> register_trees"

section \<open>Commentary links\<close>

definition link_step ::
  "string \<Rightarrow> string list \<Rightarrow> string list \<Rightarrow> violation list \<Rightarrow> elem \<Rightarrow> violation list" where
  "link_step file_path kommentar_ids subsection_ids errs link_elem =
     (let refval = get link_elem ''ref'';
          subrefval = get link_elem ''subref'';
          errs1 =
            (if truthy refval \<and> the refval \<notin> set kommentar_ids
                \<and> the refval \<notin> set subsection_ids
             then errs @ [violation_at file_path link_elem
                            (''Invalid <link ref='' @ sq @ the refval @ sq
                               @ ''> (not in komentar/subsection IDs)'')]
             else errs)
      in if truthy subrefval \<and> the subrefval \<notin> set subsection_ids
         then errs1 @ [violation_at file_path link_elem
                         (''Invalid <link subref='' @ sq @ the subrefval @ sq
                            @ ''> (not in <subsection> IDs)'')]
         else errs1)"

definition validate_links_for_commentary ::
  "elem \<Rightarrow> string \<Rightarrow> string list \<Rightarrow> string list \<Rightarrow> violation list \<Rightarrow> violation list" where
  "validate_links_for_commentary xml_root file_path kommentar_ids subsection_ids errs =
     foldl (link_step file_path kommentar_ids subsection_ids) errs (findall xml_root ''link'')"

section \<open>The main validator\<close>

text \<open>
  The body shared by the loops over sender, receiver, hand, edit and app elements and by
  the location check: \<^verbatim>\<open>ref = elem.get('ref')\<close>, and a violation
  \<^verbatim>\<open>f"{prefix}{ref}{suffix}"\<close> when \<^verbatim>\<open>ref and ref not in refs\<close>.
\<close>

definition check_ref ::
  "string \<Rightarrow> string option set \<Rightarrow> string \<Rightarrow> string \<Rightarrow> violation list \<Rightarrow> elem \<Rightarrow> violation list"
  where
  "check_ref file_path refs prefix suffix errs e =
     (let ref = get e ''ref''
      in if truthy ref \<and> ref \<notin> refs
         then errs @ [violation_at file_path e (prefix @ the ref @ suffix)]
         else errs)"

text \<open>Step 5: one \<^verbatim>\<open>letterDesc\<close> of the metadata document.\<close>

definition letter_desc_step ::
  "string \<Rightarrow> string option set \<Rightarrow> string option set \<Rightarrow> violation list \<Rightarrow> elem \<Rightarrow> violation list"
  where
  "letter_desc_step meta_file person_refs location_refs errs letter =
     (let letter_id = get letter ''letter'';
          errs1 = foldl (check_ref meta_file person_refs ''Invalid sender ref: ''
                           ('' in letter='' @ fmt letter_id))
                    errs (findall letter ''sender'');
          errs2 = foldl (check_ref meta_file person_refs ''Invalid receiver ref: ''
                           ('' in letter='' @ fmt letter_id))
                    errs1 (findall letter ''receiver'')
      in case find_elem letter ''location'' of
           None \<Rightarrow> errs2
         | Some loc_elem \<Rightarrow>
             check_ref meta_file location_refs ''Invalid location ref: ''
               ('' in letter='' @ fmt letter_id) errs2 loc_elem)"

text \<open>Step 6: one \<^verbatim>\<open>letterText\<close> block of the transcription document.\<close>

definition letter_text_step ::
  "string \<Rightarrow> string option set \<Rightarrow> string option set \<Rightarrow> string option set \<Rightarrow> violation list
     \<Rightarrow> elem \<Rightarrow> violation list" where
  "letter_text_step briefe_file letter_refs hand_refs edit_refs errs letter_text =
     (let letter_id = get letter_text ''letter'';
          errs1 = (if truthy letter_id \<and> letter_id \<notin> letter_refs
                   then errs @ [violation_at briefe_file letter_text
                                  (''Invalid letter reference: '' @ the letter_id
                                     @ '' in briefe.xml'')]
                   else errs);
          errs2 = foldl (check_ref briefe_file hand_refs ''Invalid hand ref: ''
                           ('' in letter '' @ fmt letter_id))
                    errs1 (findall letter_text ''hand'')
      in foldl (check_ref briefe_file edit_refs ''Invalid edit ref: ''
                  ('' in letter '' @ fmt letter_id))
           errs2 (findall letter_text ''edit''))"

text \<open>Step 7: one \<^verbatim>\<open>letterTradition\<close> block of the tradition document.\<close>

definition tradition_step ::
  "string \<Rightarrow> string option set \<Rightarrow> string option set \<Rightarrow> string option set \<Rightarrow> violation list
     \<Rightarrow> elem \<Rightarrow> violation list" where
  "tradition_step traditions_file letter_refs app_refs hand_refs errs tradition =
     (let letter_id = get tradition ''letter'';
          errs1 = (if truthy letter_id \<and> letter_id \<notin> letter_refs
                   then errs @ [violation_at traditions_file tradition
                                  (''Invalid letterTradition reference: '' @ the letter_id)]
                   else errs);
          errs2 = foldl (check_ref traditions_file app_refs ''Invalid app ref: ''
                           ('' in letterTradition '' @ fmt letter_id))
                    errs1 (findall tradition ''app'')
      in foldl (check_ref traditions_file hand_refs ''Invalid hand ref: ''
                  ('' in letterTradition '' @ fmt letter_id))
           errs2 (findall tradition ''hand''))"

text \<open>Step 10: one \<^verbatim>\<open>marginal\<close> element of the marginal-notes document.\<close>

definition marginal_step ::
  "string \<Rightarrow> letter_pages \<Rightarrow> string option set \<Rightarrow> violation list \<Rightarrow> elem \<Rightarrow> violation list"
  where
  "marginal_step marginalien_file lp letter_refs errs marginal_elem =
     (let letter_id = get marginal_elem ''letter'';
          page_id = get marginal_elem ''page'';
          line_id = get marginal_elem ''line''
      in if letter_id \<notin> letter_refs then
           errs @ [violation_at marginalien_file marginal_elem
                     (''Invalid marginal letter reference: '' @ fmt letter_id
                        @ '' (not in meta.xml)'')]
         else if \<not> has_key letter_id lp then
           errs @ [violation_at marginalien_file marginal_elem
                     (''No pages/lines known for letter='' @ fmt letter_id
                        @ '' in briefe/traditions'')]
         else if \<not> has_key page_id (pages_of lp (the letter_id)) then
           errs @ [violation_at marginalien_file marginal_elem
                     (''Invalid page reference: letter='' @ fmt letter_id @ '', page=''
                        @ fmt page_id)]
         else if \<not> has_line line_id (lines_of (pages_of lp (the letter_id)) (the page_id)) then
           errs @ [violation_at marginalien_file marginal_elem
                     (''Invalid line reference: letter='' @ fmt letter_id @ '', page=''
                        @ fmt page_id @ '', line='' @ fmt line_id)]
         else errs)"

text \<open>
  The arguments of \<^verbatim>\<open>validate_references\<close> after parsing: each path with the root of its
  tree. \<^verbatim>\<open>extra_registers=None\<close> is the empty list.
\<close>

record inputs =
  meta_file :: string
  meta_xml :: elem
  references_file :: string
  references_xml :: elem
  briefe_file :: string
  briefe_xml :: elem
  edits_file :: string
  edits_xml :: elem
  traditions_file :: string
  traditions_xml :: elem
  marginalien_file :: string
  marginalien_xml :: elem
  register_trees :: "(string \<times> elem) list"

text \<open>\<^verbatim>\<open>{x.get(attr) for x in root.findall(".//t")}\<close>\<close>

definition ref_set :: "elem \<Rightarrow> string \<Rightarrow> string \<Rightarrow> string option set" where
  "ref_set root t attr = set (map (\<lambda>x. get x attr) (findall root t))"

definition person_refs :: "inputs \<Rightarrow> string option set" where
  "person_refs inp = ref_set (references_xml inp) ''personDef'' ''index''"

definition location_refs :: "inputs \<Rightarrow> string option set" where
  "location_refs inp = ref_set (references_xml inp) ''locationDef'' ''index''"

definition hand_refs :: "inputs \<Rightarrow> string option set" where
  "hand_refs inp = ref_set (references_xml inp) ''handDef'' ''index''"

definition app_refs :: "inputs \<Rightarrow> string option set" where
  "app_refs inp = ref_set (references_xml inp) ''appDef'' ''index''"

definition edit_refs :: "inputs \<Rightarrow> string option set" where
  "edit_refs inp = ref_set (edits_xml inp) ''editreason'' ''index''"

definition letter_refs :: "inputs \<Rightarrow> string option set" where
  "letter_refs inp = ref_set (meta_xml inp) ''letterDesc'' ''letter''"

text \<open>Step 8: the merged location map.\<close>

definition letter_pages_of :: "inputs \<Rightarrow> letter_pages" where
  "letter_pages_of inp =
     merge_page_line_maps (build_letter_page_line_map_brief (briefe_xml inp))
       (build_letter_page_line_map_trad (traditions_xml inp))"

text \<open>
  The error list when \<^verbatim>\<open>validate_references\<close> reaches its final section: steps 4 to 11,
  each handing the list on to the next.
\<close>

definition collect_errors :: "inputs \<Rightarrow> violation list" where
  "collect_errors inp =
     (let reg = gather_registers (register_trees inp);
          komm = global_kommentar_ids reg;
          subs = global_subsection_ids reg;
          e5 = foldl (letter_desc_step (meta_file inp) (person_refs inp) (location_refs inp))
                 (errors reg) (findall (meta_xml inp) ''letterDesc'');
          e6 = foldl (letter_text_step (briefe_file inp) (letter_refs inp) (hand_refs inp)
                        (edit_refs inp))
                 e5 (findall (briefe_xml inp) ''letterText'');
          e7 = foldl (tradition_step (traditions_file inp) (letter_refs inp) (app_refs inp)
                        (hand_refs inp))
                 e6 (findall (traditions_xml inp) ''letterTradition'');
          lp = letter_pages_of inp;
          e9a = validate_intlinks (traditions_xml inp) (traditions_file inp) lp
                  (letter_refs inp) e7;
          e9b = validate_intlinks (marginalien_xml inp) (marginalien_file inp) lp
                  (letter_refs inp) e9a;
          e9c = foldl (\<lambda>errs (rfile, rroot).
                         validate_intlinks rroot rfile lp (letter_refs inp) errs)
                  e9b (register_trees inp);
          e10 = foldl (marginal_step (marginalien_file inp) lp (letter_refs inp))
                  e9c (findall (marginalien_xml inp) ''marginal'');
          l1 = validate_links_for_commentary (meta_xml inp) (meta_file inp) komm subs e10;
          l2 = validate_links_for_commentary (references_xml inp) (references_file inp)
                 komm subs l1;
          l3 = validate_links_for_commentary (briefe_xml inp) (briefe_file inp) komm subs l2;
          l4 = validate_links_for_commentary (edits_xml inp) (edits_file inp) komm subs l3;
          l5 = validate_links_for_commentary (traditions_xml inp) (traditions_file inp)
                 komm subs l4;
          l6 = validate_links_for_commentary (marginalien_xml inp) (marginalien_file inp)
                 komm subs l5
      in foldl (\<lambda>errs (rfile, rroot). validate_links_for_commentary rroot rfile komm subs errs)
           l6 (register_trees inp))"

text \<open>Decimal digits of a line number, as \<^verbatim>\<open>str\<close> prints an \<^verbatim>\<open>int\<close>.\<close>

definition digit_char :: "nat \<Rightarrow> char" where
  "digit_char d = ''0123456789'' ! d"

fun str_nat :: "nat \<Rightarrow> string" where
  "str_nat n =
     (if n < 10 then [digit_char n]
      else str_nat (n div 10) @ [digit_char (n mod 10)])"

definition str_line :: "line_number \<Rightarrow> string" where
  "str_line l = (case l of Line n \<Rightarrow> str_nat n | Unknown \<Rightarrow> ''Unknown'')"

definition annotation :: "violation \<Rightarrow> string" where
  "annotation err =
     ''::error file='' @ file_name err @ '',line='' @ str_line (line_no err) @ ''::''
       @ message err"

text \<open>What the run prints, line by line, and its exit status.\<close>

definition validate_references :: "inputs \<Rightarrow> string list \<times> nat" where
  "validate_references inp =
     (let errs = collect_errors inp
      in if errs \<noteq> [] then (map annotation errs, 1)
         else ([''All references are valid.''], 0))"


section \<open>Example documents\<close>

definition ex_briefe :: elem where
  "ex_briefe =
     Elem ''opus'' [] (Some 1)
       [Elem ''letterText'' [(''letter'', ''L1'')] (Some 2)
          [Elem ''page'' [(''index'', ''3'')] (Some 3) [],
           Elem ''line'' [(''index'', ''5'')] (Some 4) []]]"

definition ex_traditions :: elem where
  "ex_traditions =
     Elem ''opus'' [] (Some 1)
       [Elem ''letterTradition'' [(''letter'', ''L1'')] (Some 2)
          [Elem ''page'' [(''index'', ''3'')] (Some 3) [],
           Elem ''line'' [(''index'', ''7'')] (Some 4) []]]"

definition ex_lp :: letter_pages where
  "ex_lp = [(''L1'', [(''3'', {''5'', ''7''})])]"

definition ex_letter_refs :: "string option set" where
  "ex_letter_refs = {Some ''L1'', Some ''L2''}"

definition ex_intlink :: "(string \<times> string) list \<Rightarrow> elem" where
  "ex_intlink attrs = Elem ''intlink'' attrs (Some 7) []"

definition ex_marginal :: "(string \<times> string) list \<Rightarrow> elem" where
  "ex_marginal attrs = Elem ''marginal'' attrs (Some 9) []"



definition ex_empty_doc :: elem where
  "ex_empty_doc = Elem ''opus'' [] (Some 1) []"

definition ex_stray_refs :: inputs where
  "ex_stray_refs =
     \<lparr>meta_file = ''meta.xml'', meta_xml = ex_empty_doc,
      references_file = ''references.xml'',
      references_xml =
        Elem ''opus'' [] (Some 1)
          [Elem ''handDef'' [(''index'', ''H1'')] (Some 2) [],
           Elem ''appDef'' [(''index'', ''A1'')] (Some 3) []],
      briefe_file = ''briefe.xml'',
      briefe_xml = Elem ''opus'' [] (Some 1) [Elem ''hand'' [(''ref'', ''H9'')] (Some 2) []],
      edits_file = ''edits.xml'', edits_xml = ex_empty_doc,
      traditions_file = ''traditions.xml'',
      traditions_xml = Elem ''opus'' [] (Some 1) [Elem ''app'' [(''ref'', ''A9'')] (Some 2) []],
      marginalien_file = ''marginalien.xml'', marginalien_xml = ex_empty_doc,
      register_trees = []\<rparr>"

definition ex_block_refs :: inputs where
  "ex_block_refs =
     \<lparr>meta_file = ''meta.xml'',
      meta_xml = Elem ''opus'' [] (Some 1) [Elem ''letterDesc'' [(''letter'', ''L1'')] (Some 2) []],
      references_file = ''references.xml'',
      references_xml =
        Elem ''opus'' [] (Some 1)
          [Elem ''handDef'' [(''index'', ''H1'')] (Some 2) [],
           Elem ''appDef'' [(''index'', ''A1'')] (Some 3) []],
      briefe_file = ''briefe.xml'',
      briefe_xml =
        Elem ''opus'' [] (Some 1)
          [Elem ''letterText'' [(''letter'', ''L1'')] (Some 2)
             [Elem ''hand'' [(''ref'', ''H9'')] (Some 3) [],
              Elem ''hand'' [(''ref'', ''H1'')] (Some 4) [],
              Elem ''edit'' [(''ref'', ''E9'')] (Some 5) []]],
      edits_file = ''edits.xml'', edits_xml = ex_empty_doc,
      traditions_file = ''traditions.xml'',
      traditions_xml =
        Elem ''opus'' [] (Some 1)
          [Elem ''letterTradition'' [(''letter'', ''L1'')] (Some 2)
             [Elem ''app'' [(''ref'', ''A9'')] (Some 3) [],
              Elem ''hand'' [(''ref'', ''H9'')] (Some 4) []]],
      marginalien_file = ''marginalien.xml'', marginalien_xml = ex_empty_doc,
      register_trees = []\<rparr>"

abbreviation gather_from :: "registry \<Rightarrow> (string \<times> elem) list \<Rightarrow> registry" where
  "gather_from r0 rs \<equiv>
     foldl (\<lambda>r (rfile, rroot). gather_commentaries_and_subsections rroot rfile r) r0 rs"

definition ex_register :: elem where
  "ex_register =
     Elem ''register'' [] (Some 1)
       [Elem ''kommentar'' [(''id'', ''K1'')] (Some 2) [],
        Elem ''kommentar'' [(''id'', ''K2'')] (Some 3)
          [Elem ''p'' [] (Some 4) [Elem ''lemma'' [] (Some 5) []]],
        Elem ''subsection'' [(''id'', ''S1'')] (Some 6) [],
        Elem ''link'' [(''ref'', ''K1''), (''subref'', ''S1'')] (Some 7) []]"

definition ex_registers_only :: "(string \<times> elem) list \<Rightarrow> inputs" where
  "ex_registers_only rs =
     \<lparr>meta_file = ''meta.xml'', meta_xml = ex_empty_doc,
      references_file = ''references.xml'', references_xml = ex_empty_doc,
      briefe_file = ''briefe.xml'', briefe_xml = ex_empty_doc,
      edits_file = ''edits.xml'', edits_xml = ex_empty_doc,
      traditions_file = ''traditions.xml'', traditions_xml = ex_empty_doc,
      marginalien_file = ''marginalien.xml'', marginalien_xml = ex_empty_doc,
      register_trees = rs\<rparr>"

definition ex_reg_k1 :: elem where
  "ex_reg_k1 =
     Elem ''register'' [] (Some 1)
       [Elem ''kommentar'' [(''id'', ''K1'')] (Some 2) [Elem ''lemma'' [] (Some 3) []]]"

definition ex_reg_twice :: elem where
  "ex_reg_twice =
     Elem ''register'' [] (Some 1)
       [Elem ''kommentar'' [(''id'', ''K1'')] (Some 2) [Elem ''lemma'' [] (Some 3) []],
        Elem ''kommentar'' [(''id'', ''K1'')] (Some 4) [Elem ''lemma'' [] (Some 5) []],
        Elem ''subsection'' [(''id'', ''S1'')] (Some 6) [Elem ''lemma'' [] (Some 7) []],
        Elem ''subsection'' [(''id'', ''S1'')] (Some 8) [Elem ''lemma'' [] (Some 9) []]]"

definition ex_carry :: elem where
  "ex_carry =
     Elem ''opus'' [] (Some 1)
       [Elem ''letterText'' [(''letter'', ''L1'')] (Some 2)
          [Elem ''page'' [(''index'', ''3'')] (Some 3) [],
           Elem ''line'' [(''index'', ''1'')] (Some 4) []],
        Elem ''letterText'' [(''letter'', ''L2'')] (Some 5)
          [Elem ''line'' [(''index'', ''2'')] (Some 6) []]]"


section \<open>Properties of the map builders\<close>

lemma map_of_pages_update:
  "map_of (AList.update l v m) l' = (if l' = l then Some v else map_of m l')"
  by (simp add: update_conv')

lemma lookup_update_lines:
  "lookup_lines (update_lines m l p S) l' p' =
     (if l' = l \<and> p' = p then lookup_lines m l p \<union> S else lookup_lines m l' p')"
  by (simp add: lookup_lines_def update_lines_def pages_of_def lines_of_def
      map_of_pages_update)

lemma lookup_add_line:
  "lookup_lines (add_line m l p i) l' p' =
     (if l' = l \<and> p' = p then insert i (lookup_lines m l p) else lookup_lines m l' p')"
  by (simp add: lookup_lines_def add_line_def pages_of_def lines_of_def
      map_of_pages_update)

lemma lookup_merge_pages:
  "lookup_lines (merge_pages l m ps) l' p' =
     lookup_lines m l' p' \<union> (if l' = l then \<Union> {S. (p', S) \<in> set ps} else {})"
proof (induction ps arbitrary: m)
  case Nil
  then show ?case by (simp add: merge_pages_def)
next
  case (Cons a ps)
  obtain p S where a: "a = (p, S)" by (cases a)
  have step: "merge_pages l m (a # ps) = merge_pages l (update_lines m l p S) ps"
    by (simp add: merge_pages_def a)
  have "lookup_lines (merge_pages l m (a # ps)) l' p' =
      lookup_lines (update_lines m l p S) l' p' \<union>
        (if l' = l then \<Union> {S. (p', S) \<in> set ps} else {})"
    by (simp only: step Cons.IH)
  also have "\<dots> = lookup_lines m l' p' \<union>
      (if l' = l then \<Union> {S'. (p', S') \<in> set ((p, S) # ps)} else {})"
    by (auto simp: lookup_update_lines)
  finally show ?case by (simp only: a)
qed

lemma lookup_merge_maps:
  "lookup_lines (merge_page_line_maps a b) l p =
     lookup_lines a l p \<union> \<Union> {S. \<exists>ps. (l, ps) \<in> set b \<and> (p, S) \<in> set ps}"
proof (induction b arbitrary: a)
  case Nil
  then show ?case by (simp add: merge_page_line_maps_def)
next
  case (Cons x b)
  obtain l0 ps0 where x: "x = (l0, ps0)" by (cases x)
  have step: "merge_page_line_maps a (x # b) = merge_page_line_maps (merge_pages l0 a ps0) b"
    by (simp add: merge_page_line_maps_def x)
  have "lookup_lines (merge_page_line_maps a (x # b)) l p =
      lookup_lines (merge_pages l0 a ps0) l p \<union>
        \<Union> {S. \<exists>ps. (l, ps) \<in> set b \<and> (p, S) \<in> set ps}"
    by (simp only: step Cons.IH)
  also have "\<dots> = lookup_lines a l p \<union>
      \<Union> {S. \<exists>ps. (l, ps) \<in> set ((l0, ps0) # b) \<and> (p, S) \<in> set ps}"
    by (auto simp: lookup_merge_pages)
  finally show ?case by (simp only: x)
qed

lemma wf_lookup_lines:
  assumes "wf_pages b"
  shows "\<Union> {S. \<exists>ps. (l, ps) \<in> set b \<and> (p, S) \<in> set ps} = lookup_lines b l p"
proof -
  from assms have d: "distinct (map fst b)" by (simp add: wf_pages_def)
  have dps: "\<And>ps. (l, ps) \<in> set b \<Longrightarrow> distinct (map fst ps)"
    using assms by (auto simp: wf_pages_def list_all_iff)
  have "{S. \<exists>ps. (l, ps) \<in> set b \<and> (p, S) \<in> set ps} =
        {S. \<exists>ps. map_of b l = Some ps \<and> map_of ps p = Some S}"
    using d dps by auto
  then show ?thesis
    by (auto simp: lookup_lines_def pages_of_def lines_of_def split: option.splits)
qed

lemma foldl_invariant:
  assumes "P s" and "\<And>s x. P s \<Longrightarrow> P (f s x)"
  shows "P (foldl f s xs)"
  using assms(1) by (induction xs arbitrary: s) (simp_all add: assms(2))

lemma set_update_subset: "set (AList.update k v al) \<subseteq> insert (k, v) (set al)"
  by (induction al) auto

lemma wf_add_line:
  assumes "wf_pages m"
  shows "wf_pages (add_line m l p i)"
proof -
  from assms have d: "distinct (map fst m)"
    and a: "\<And>l ps. (l, ps) \<in> set m \<Longrightarrow> distinct (map fst ps)"
    by (auto simp: wf_pages_def list_all_iff)
  have "distinct (map fst (pages_of m l))"
    using a by (auto simp: pages_of_def split: option.splits dest: map_of_SomeD)
  then have new: "distinct (map fst (AList.update p (insert i (lines_of (pages_of m l) p)) (pages_of m l)))"
    by (rule distinct_update)
  show ?thesis
    unfolding wf_pages_def add_line_def list_all_iff
    using d a new set_update_subset[of l _ m]
    by (auto simp: distinct_update)
qed

lemma wf_brief_step: "wf_pages (letter_pages s) \<Longrightarrow> wf_pages (letter_pages (brief_step s e))"
  by (simp add: brief_step_def Let_def wf_add_line)

lemma wf_brief: "wf_pages (build_letter_page_line_map_brief doc_root)"
  unfolding build_letter_page_line_map_brief_def brief_scan_def Let_def
proof (rule foldl_invariant[where P = "\<lambda>s. wf_pages (letter_pages s)"])
  show "wf_pages (letter_pages \<lparr>current_letter = None, current_page = None, letter_pages = []\<rparr>)"
    by (simp add: wf_pages_def)
  show "\<And>s x. wf_pages (letter_pages s) \<Longrightarrow> wf_pages (letter_pages (brief_step s x))"
    by (rule wf_brief_step)
qed

lemma wf_trad_step: "wf_pages (snd s) \<Longrightarrow> wf_pages (snd (trad_step l s e))"
  by (simp add: trad_step_def Let_def wf_add_line)

lemma wf_trad_block: "wf_pages m \<Longrightarrow> wf_pages (trad_block m e)"
  unfolding trad_block_def Let_def
  by (simp add: foldl_invariant[where P = "\<lambda>s. wf_pages (snd s)"] wf_trad_step)

lemma wf_trad: "wf_pages (build_letter_page_line_map_trad trad_root)"
  unfolding build_letter_page_line_map_trad_def
proof (rule foldl_invariant[where P = wf_pages])
  show "wf_pages []" by (simp add: wf_pages_def)
  show "\<And>s x. wf_pages s \<Longrightarrow> wf_pages (trad_block s x)" by (rule wf_trad_block)
qed

text \<open>
  C4. The location map the validator works with is the merge of the map built from the
  transcription document and the map built from the tradition document. For every letter
  and page, the lines it holds are the union of the lines the two scans recorded for that
  letter and page: nothing either scan recorded is lost, and nothing else is added.
\<close>

theorem merged_map_is_union:
  "lookup_lines
     (merge_page_line_maps (build_letter_page_line_map_brief briefe)
        (build_letter_page_line_map_trad traditions)) letter_id page_id =
   lookup_lines (build_letter_page_line_map_brief briefe) letter_id page_id \<union>
   lookup_lines (build_letter_page_line_map_trad traditions) letter_id page_id"
  by (simp add: lookup_merge_maps wf_lookup_lines[OF wf_trad])


lemma ex_briefe_map:
  "build_letter_page_line_map_brief ex_briefe = [(''L1'', [(''3'', {''5''})])]"
  by (simp add: build_letter_page_line_map_brief_def ex_briefe_def find_elem_def findall_def
      brief_scan_def brief_step_def get_def truthy_def add_line_def pages_of_def lines_of_def)

lemma ex_traditions_map:
  "build_letter_page_line_map_trad ex_traditions = [(''L1'', [(''3'', {''7''})])]"
  by (simp add: build_letter_page_line_map_trad_def ex_traditions_def findall_def
      trad_block_def trad_step_def get_def truthy_def add_line_def pages_of_def lines_of_def)

theorem merged_map_is_union_witness:
  "lookup_lines (build_letter_page_line_map_brief ex_briefe) ''L1'' ''3'' = {''5''} \<and>
   lookup_lines (build_letter_page_line_map_trad ex_traditions) ''L1'' ''3'' = {''7''} \<and>
   lookup_lines
     (merge_page_line_maps (build_letter_page_line_map_brief ex_briefe)
        (build_letter_page_line_map_trad ex_traditions)) ''L1'' ''3'' = {''5'', ''7''}"
  using merged_map_is_union [of ex_briefe ex_traditions "''L1''" "''3''"]
  by (simp add: ex_briefe_map ex_traditions_map lookup_lines_def pages_of_def lines_of_def
      insert_commute)

section \<open>The internal-link check\<close>

lemma foldl_append_steps:
  assumes "\<And>acc x. f acc x = acc @ f [] x"
  shows "foldl f acc xs = acc @ concat (map (f []) xs)"
proof (induction xs arbitrary: acc)
  case Nil
  show ?case by simp
next
  case (Cons x xs)
  have "foldl f acc (x # xs) = foldl f (f acc x) xs" by simp
  also have "\<dots> = f acc x @ concat (map (f []) xs)" by (rule Cons.IH)
  also have "\<dots> = (acc @ f [] x) @ concat (map (f []) xs)"
    using assms[of acc x] by simp
  finally show ?case by simp
qed

lemma intlink_step_append:
  "intlink_step f lp R errs e = errs @ intlink_step f lp R [] e"
  by (simp add: intlink_step_def Let_def)

lemma validate_intlinks_concat:
  "validate_intlinks root f lp R errs =
     errs @ concat (map (intlink_step f lp R []) (findall root ''intlink''))"
  unfolding validate_intlinks_def
  by (rule foldl_append_steps) (rule intlink_step_append)

text \<open>
  C1. Every \<open>intlink\<close> element below the root of the document that \<open>validate_intlinks\<close> is
  given (the tradition document, the marginal-notes document and each register document)
  goes through one cascade, in document order. An attribute counts as present when
  \<^verbatim>\<open>get\<close> returns a non-empty value, which is the test the source applies (\<open>truthy\<close>).
  (1) A letter that is absent or not in the letter identifier set gives exactly one
  violation and nothing else is checked. (2) Otherwise a letter without an entry in the
  location map gives exactly one violation and checking stops. (3) Otherwise a present page
  that is not under the letter gives one violation; an absent page with a present line gives
  the one violation "line without page"; with neither there is none. (4) With the page
  resolved, a present line outside the line set of the letter and page gives one violation,
  and an absent line or a line in the set gives none. A link with a line and no page always
  adds exactly one violation, whatever its letter.
\<close>

theorem intlink_cascade:
  "(\<not> truthy (get e ''letter'') \<or> get e ''letter'' \<notin> R \<longrightarrow>
      intlink_step f lp R errs e =
        errs @ [violation_at f e (''Invalid intlink letter='' @ fmt (get e ''letter''))]) \<and>
   (truthy (get e ''letter'') \<and> get e ''letter'' \<in> R \<and> \<not> has_key (get e ''letter'') lp \<longrightarrow>
      intlink_step f lp R errs e =
        errs @ [violation_at f e
                  (''No pages known for letter='' @ fmt (get e ''letter'') @ '' in intlink'')]) \<and>
   (truthy (get e ''letter'') \<and> get e ''letter'' \<in> R \<and> has_key (get e ''letter'') lp \<and>
    truthy (get e ''page'') \<and>
    \<not> has_key (get e ''page'') (pages_of lp (the (get e ''letter''))) \<longrightarrow>
      intlink_step f lp R errs e =
        errs @ [violation_at f e
                  (''Invalid page='' @ fmt (get e ''page'') @ '' for letter=''
                     @ fmt (get e ''letter'') @ '' in intlink'')]) \<and>
   (truthy (get e ''letter'') \<and> get e ''letter'' \<in> R \<and> has_key (get e ''letter'') lp \<and>
    \<not> truthy (get e ''page'') \<and> truthy (get e ''line'') \<longrightarrow>
      intlink_step f lp R errs e =
        errs @ [violation_at f e
                  (''intlink has line='' @ fmt (get e ''line'') @ '' but no page=? for letter=''
                     @ fmt (get e ''letter''))]) \<and>
   (truthy (get e ''letter'') \<and> get e ''letter'' \<in> R \<and> has_key (get e ''letter'') lp \<and>
    \<not> truthy (get e ''page'') \<and> \<not> truthy (get e ''line'') \<longrightarrow>
      intlink_step f lp R errs e = errs) \<and>
   (truthy (get e ''letter'') \<and> get e ''letter'' \<in> R \<and> has_key (get e ''letter'') lp \<and>
    truthy (get e ''page'') \<and>
    has_key (get e ''page'') (pages_of lp (the (get e ''letter''))) \<and>
    truthy (get e ''line'') \<and>
    \<not> has_line (get e ''line'')
        (lines_of (pages_of lp (the (get e ''letter''))) (the (get e ''page''))) \<longrightarrow>
      intlink_step f lp R errs e =
        errs @ [violation_at f e
                  (''Invalid line='' @ fmt (get e ''line'') @ '' for letter=''
                     @ fmt (get e ''letter'') @ '', page='' @ fmt (get e ''page'')
                     @ '' in intlink'')]) \<and>
   (truthy (get e ''letter'') \<and> get e ''letter'' \<in> R \<and> has_key (get e ''letter'') lp \<and>
    truthy (get e ''page'') \<and>
    has_key (get e ''page'') (pages_of lp (the (get e ''letter''))) \<and>
    (\<not> truthy (get e ''line'') \<or>
     has_line (get e ''line'')
        (lines_of (pages_of lp (the (get e ''letter''))) (the (get e ''page'')))) \<longrightarrow>
      intlink_step f lp R errs e = errs) \<and>
   (truthy (get e ''line'') \<and> \<not> truthy (get e ''page'') \<longrightarrow>
      length (intlink_step f lp R errs e) = Suc (length errs)) \<and>
   validate_intlinks root f lp R errs =
     errs @ concat (map (intlink_step f lp R []) (findall root ''intlink''))"
proof (intro conjI impI)
  show "validate_intlinks root f lp R errs =
     errs @ concat (map (intlink_step f lp R []) (findall root ''intlink''))"
    by (rule validate_intlinks_concat)
qed (auto simp add: intlink_step_def Let_def)


lemmas ex_intlink_simps =
  intlink_step_def Let_def ex_intlink_def ex_lp_def ex_letter_refs_def get_def truthy_def
  has_key_def has_line_def pages_of_def lines_of_def fmt_def violation_at_def
  get_line_number_def validate_intlinks_def findall_def

theorem intlink_cascade_witness:
  "intlink_step ''t.xml'' ex_lp ex_letter_refs [] (ex_intlink [(''letter'', ''L9'')]) =
     [\<lparr>file_name = ''t.xml'', line_no = Line 7, message = ''Invalid intlink letter=L9''\<rparr>] \<and>
   intlink_step ''t.xml'' ex_lp ex_letter_refs [] (ex_intlink [(''page'', ''3'')]) =
     [\<lparr>file_name = ''t.xml'', line_no = Line 7, message = ''Invalid intlink letter=None''\<rparr>] \<and>
   intlink_step ''t.xml'' ex_lp ex_letter_refs [] (ex_intlink [(''letter'', ''L2'')]) =
     [\<lparr>file_name = ''t.xml'', line_no = Line 7,
       message = ''No pages known for letter=L2 in intlink''\<rparr>] \<and>
   intlink_step ''t.xml'' ex_lp ex_letter_refs []
       (ex_intlink [(''letter'', ''L1''), (''page'', ''4'')]) =
     [\<lparr>file_name = ''t.xml'', line_no = Line 7,
       message = ''Invalid page=4 for letter=L1 in intlink''\<rparr>] \<and>
   intlink_step ''t.xml'' ex_lp ex_letter_refs []
       (ex_intlink [(''letter'', ''L1''), (''line'', ''5'')]) =
     [\<lparr>file_name = ''t.xml'', line_no = Line 7,
       message = ''intlink has line=5 but no page=? for letter=L1''\<rparr>] \<and>
   intlink_step ''t.xml'' ex_lp ex_letter_refs [] (ex_intlink [(''letter'', ''L1'')]) = [] \<and>
   intlink_step ''t.xml'' ex_lp ex_letter_refs []
       (ex_intlink [(''letter'', ''L1''), (''page'', ''3''), (''line'', ''9'')]) =
     [\<lparr>file_name = ''t.xml'', line_no = Line 7,
       message = ''Invalid line=9 for letter=L1, page=3 in intlink''\<rparr>] \<and>
   intlink_step ''t.xml'' ex_lp ex_letter_refs []
       (ex_intlink [(''letter'', ''L1''), (''page'', ''3'')]) = [] \<and>
   intlink_step ''t.xml'' ex_lp ex_letter_refs []
       (ex_intlink [(''letter'', ''L1''), (''page'', ''3''), (''line'', ''7'')]) = [] \<and>
   length (intlink_step ''t.xml'' ex_lp ex_letter_refs []
       (ex_intlink [(''letter'', ''L1''), (''line'', ''5'')])) = Suc 0 \<and>
   validate_intlinks
       (Elem ''opus'' [] (Some 1)
          [ex_intlink [(''letter'', ''L9'')],
           Elem ''p'' [] (Some 2) [ex_intlink [(''letter'', ''L1''), (''page'', ''3'')]],
           ex_intlink [(''letter'', ''L1''), (''line'', ''5'')]])
       ''t.xml'' ex_lp ex_letter_refs [] =
     [\<lparr>file_name = ''t.xml'', line_no = Line 7, message = ''Invalid intlink letter=L9''\<rparr>,
      \<lparr>file_name = ''t.xml'', line_no = Line 7,
       message = ''intlink has line=5 but no page=? for letter=L1''\<rparr>]"
  using
    intlink_cascade [of "ex_intlink [(''letter'', ''L9'')]" ex_letter_refs "''t.xml''" ex_lp "[]"]
    intlink_cascade [of "ex_intlink [(''page'', ''3'')]" ex_letter_refs "''t.xml''" ex_lp "[]"]
    intlink_cascade [of "ex_intlink [(''letter'', ''L2'')]" ex_letter_refs "''t.xml''" ex_lp "[]"]
    intlink_cascade [of "ex_intlink [(''letter'', ''L1''), (''page'', ''4'')]" ex_letter_refs
      "''t.xml''" ex_lp "[]"]
    intlink_cascade [of "ex_intlink [(''letter'', ''L1''), (''line'', ''5'')]" ex_letter_refs
      "''t.xml''" ex_lp "[]"]
    intlink_cascade [of "ex_intlink [(''letter'', ''L1'')]" ex_letter_refs "''t.xml''" ex_lp "[]"]
    intlink_cascade [of "ex_intlink [(''letter'', ''L1''), (''page'', ''3''), (''line'', ''9'')]"
      ex_letter_refs "''t.xml''" ex_lp "[]"]
    intlink_cascade [of "ex_intlink [(''letter'', ''L1''), (''page'', ''3'')]" ex_letter_refs
      "''t.xml''" ex_lp "[]"]
  by (simp add: ex_intlink_simps)

section \<open>The marginal-note check\<close>

lemma marginal_step_append:
  "marginal_step f lp R errs e = errs @ marginal_step f lp R [] e"
  by (simp add: marginal_step_def Let_def)

text \<open>
  C2. Every \<open>marginal\<close> element below the root of the marginal-notes document goes through
  the three-level cascade, in document order, and adds at most one violation. Nothing is
  optional: the attributes are looked up as \<^verbatim>\<open>get\<close> returns them, and a missing one
  (\<^verbatim>\<open>None\<close>) is never a key of the map nor a member of a line set, so a missing letter,
  page or line always adds exactly one violation. A letter outside the letter identifier
  set gives one violation and neither page nor line is looked at; a letter without an entry
  in the location map, or a page that is not under the letter, likewise gives one violation
  and stops; the line is compared with the line set of the letter and page only when both
  resolved.
\<close>

theorem marginal_cascade:
  "(get e ''letter'' \<notin> R \<longrightarrow>
      marginal_step f lp R errs e =
        errs @ [violation_at f e
                  (''Invalid marginal letter reference: '' @ fmt (get e ''letter'')
                     @ '' (not in meta.xml)'')]) \<and>
   (get e ''letter'' \<in> R \<and> \<not> has_key (get e ''letter'') lp \<longrightarrow>
      marginal_step f lp R errs e =
        errs @ [violation_at f e
                  (''No pages/lines known for letter='' @ fmt (get e ''letter'')
                     @ '' in briefe/traditions'')]) \<and>
   (get e ''letter'' \<in> R \<and> has_key (get e ''letter'') lp \<and>
    \<not> has_key (get e ''page'') (pages_of lp (the (get e ''letter''))) \<longrightarrow>
      marginal_step f lp R errs e =
        errs @ [violation_at f e
                  (''Invalid page reference: letter='' @ fmt (get e ''letter'') @ '', page=''
                     @ fmt (get e ''page''))]) \<and>
   (get e ''letter'' \<in> R \<and> has_key (get e ''letter'') lp \<and>
    has_key (get e ''page'') (pages_of lp (the (get e ''letter''))) \<and>
    \<not> has_line (get e ''line'')
        (lines_of (pages_of lp (the (get e ''letter''))) (the (get e ''page''))) \<longrightarrow>
      marginal_step f lp R errs e =
        errs @ [violation_at f e
                  (''Invalid line reference: letter='' @ fmt (get e ''letter'') @ '', page=''
                     @ fmt (get e ''page'') @ '', line='' @ fmt (get e ''line''))]) \<and>
   (get e ''letter'' \<in> R \<and> has_key (get e ''letter'') lp \<and>
    has_key (get e ''page'') (pages_of lp (the (get e ''letter''))) \<and>
    has_line (get e ''line'')
        (lines_of (pages_of lp (the (get e ''letter''))) (the (get e ''page''))) \<longrightarrow>
      marginal_step f lp R errs e = errs) \<and>
   (get e ''letter'' = None \<or> get e ''page'' = None \<or> get e ''line'' = None \<longrightarrow>
      length (marginal_step f lp R errs e) = Suc (length errs)) \<and>
   foldl (marginal_step f lp R) errs (findall root ''marginal'') =
     errs @ concat (map (marginal_step f lp R []) (findall root ''marginal''))"
proof (intro conjI impI)
  show "foldl (marginal_step f lp R) errs (findall root ''marginal'') =
     errs @ concat (map (marginal_step f lp R []) (findall root ''marginal''))"
    by (rule foldl_append_steps) (rule marginal_step_append)
qed (auto simp add: marginal_step_def Let_def has_key_def has_line_def)

lemmas ex_marginal_simps =
  marginal_step_def Let_def ex_marginal_def ex_lp_def ex_letter_refs_def get_def
  has_key_def has_line_def pages_of_def lines_of_def fmt_def violation_at_def
  get_line_number_def findall_def

theorem marginal_cascade_witness:
  "marginal_step ''m.xml'' ex_lp ex_letter_refs []
       (ex_marginal [(''letter'', ''L9''), (''page'', ''3''), (''line'', ''5'')]) =
     [\<lparr>file_name = ''m.xml'', line_no = Line 9,
       message = ''Invalid marginal letter reference: L9 (not in meta.xml)''\<rparr>] \<and>
   marginal_step ''m.xml'' ex_lp ex_letter_refs []
       (ex_marginal [(''letter'', ''L2''), (''page'', ''3''), (''line'', ''5'')]) =
     [\<lparr>file_name = ''m.xml'', line_no = Line 9,
       message = ''No pages/lines known for letter=L2 in briefe/traditions''\<rparr>] \<and>
   marginal_step ''m.xml'' ex_lp ex_letter_refs []
       (ex_marginal [(''letter'', ''L1''), (''page'', ''4''), (''line'', ''5'')]) =
     [\<lparr>file_name = ''m.xml'', line_no = Line 9,
       message = ''Invalid page reference: letter=L1, page=4''\<rparr>] \<and>
   marginal_step ''m.xml'' ex_lp ex_letter_refs []
       (ex_marginal [(''letter'', ''L1''), (''page'', ''3''), (''line'', ''9'')]) =
     [\<lparr>file_name = ''m.xml'', line_no = Line 9,
       message = ''Invalid line reference: letter=L1, page=3, line=9''\<rparr>] \<and>
   marginal_step ''m.xml'' ex_lp ex_letter_refs []
       (ex_marginal [(''letter'', ''L1''), (''page'', ''3''), (''line'', ''5'')]) = [] \<and>
   get (ex_marginal [(''letter'', ''L1''), (''page'', ''3'')]) ''line'' = None \<and>
   length (marginal_step ''m.xml'' ex_lp ex_letter_refs []
       (ex_marginal [(''letter'', ''L1''), (''page'', ''3'')])) = Suc 0 \<and>
   foldl (marginal_step ''m.xml'' ex_lp ex_letter_refs) []
       (findall
          (Elem ''opus'' [] (Some 1)
             [ex_marginal [(''letter'', ''L2''), (''page'', ''3''), (''line'', ''5'')],
              ex_marginal [(''letter'', ''L1''), (''page'', ''3''), (''line'', ''5'')],
              ex_marginal [(''letter'', ''L1''), (''page'', ''3'')]])
          ''marginal'') =
     [\<lparr>file_name = ''m.xml'', line_no = Line 9,
       message = ''No pages/lines known for letter=L2 in briefe/traditions''\<rparr>,
      \<lparr>file_name = ''m.xml'', line_no = Line 9,
       message = ''Invalid line reference: letter=L1, page=3, line=None''\<rparr>]"
  using
    marginal_cascade [of "ex_marginal [(''letter'', ''L9''), (''page'', ''3''), (''line'', ''5'')]"
      ex_letter_refs "''m.xml''" ex_lp "[]"]
    marginal_cascade [of "ex_marginal [(''letter'', ''L2''), (''page'', ''3''), (''line'', ''5'')]"
      ex_letter_refs "''m.xml''" ex_lp "[]"]
    marginal_cascade [of "ex_marginal [(''letter'', ''L1''), (''page'', ''4''), (''line'', ''5'')]"
      ex_letter_refs "''m.xml''" ex_lp "[]"]
    marginal_cascade [of "ex_marginal [(''letter'', ''L1''), (''page'', ''3''), (''line'', ''9'')]"
      ex_letter_refs "''m.xml''" ex_lp "[]"]
    marginal_cascade [of "ex_marginal [(''letter'', ''L1''), (''page'', ''3''), (''line'', ''5'')]"
      ex_letter_refs "''m.xml''" ex_lp "[]"]
    marginal_cascade [of "ex_marginal [(''letter'', ''L1''), (''page'', ''3'')]"
      ex_letter_refs "''m.xml''" ex_lp "[]"]
  by (simp add: ex_marginal_simps)

section \<open>Optional reference attributes\<close>

lemma check_ref_append:
  "check_ref f refs pre suf errs e = errs @ check_ref f refs pre suf [] e"
  by (simp add: check_ref_def Let_def)

lemma check_refs_concat:
  "foldl (check_ref f refs pre suf) errs es =
     errs @ concat (map (check_ref f refs pre suf []) es)"
  by (rule foldl_append_steps) (rule check_ref_append)

lemma letter_desc_step_parts:
  "letter_desc_step mf persons locations errs d =
     errs
     @ concat (map (check_ref mf persons ''Invalid sender ref: ''
                      ('' in letter='' @ fmt (get d ''letter'')) [])
                 (findall d ''sender''))
     @ concat (map (check_ref mf persons ''Invalid receiver ref: ''
                      ('' in letter='' @ fmt (get d ''letter'')) [])
                 (findall d ''receiver''))
     @ (case find_elem d ''location'' of
          None \<Rightarrow> []
        | Some loc_elem \<Rightarrow>
            check_ref mf locations ''Invalid location ref: ''
              ('' in letter='' @ fmt (get d ''letter'')) [] loc_elem)"
  by (simp add: letter_desc_step_def Let_def check_refs_concat
      check_ref_append[of _ _ _ _ "_ @ _"] split: option.splits)

lemma letter_text_step_parts:
  "letter_text_step bf letters hands edits errs b =
     errs
     @ (if truthy (get b ''letter'') \<and> get b ''letter'' \<notin> letters
        then [violation_at bf b
                (''Invalid letter reference: '' @ the (get b ''letter'') @ '' in briefe.xml'')]
        else [])
     @ concat (map (check_ref bf hands ''Invalid hand ref: ''
                      ('' in letter '' @ fmt (get b ''letter'')) [])
                 (findall b ''hand''))
     @ concat (map (check_ref bf edits ''Invalid edit ref: ''
                      ('' in letter '' @ fmt (get b ''letter'')) [])
                 (findall b ''edit''))"
  by (simp add: letter_text_step_def Let_def check_refs_concat)

lemma tradition_step_parts:
  "tradition_step tf letters apps hands errs b =
     errs
     @ (if truthy (get b ''letter'') \<and> get b ''letter'' \<notin> letters
        then [violation_at tf b
                (''Invalid letterTradition reference: '' @ the (get b ''letter''))]
        else [])
     @ concat (map (check_ref tf apps ''Invalid app ref: ''
                      ('' in letterTradition '' @ fmt (get b ''letter'')) [])
                 (findall b ''app''))
     @ concat (map (check_ref tf hands ''Invalid hand ref: ''
                      ('' in letterTradition '' @ fmt (get b ''letter'')) [])
                 (findall b ''hand''))"
  by (simp add: tradition_step_def Let_def check_refs_concat)

lemma link_step_parts:
  "link_step f komm subs errs e =
     errs
     @ (if truthy (get e ''ref'') \<and> the (get e ''ref'') \<notin> set komm
           \<and> the (get e ''ref'') \<notin> set subs
        then [violation_at f e
                (''Invalid <link ref='' @ sq @ the (get e ''ref'') @ sq
                   @ ''> (not in komentar/subsection IDs)'')]
        else [])
     @ (if truthy (get e ''subref'') \<and> the (get e ''subref'') \<notin> set subs
        then [violation_at f e
                (''Invalid <link subref='' @ sq @ the (get e ''subref'') @ sq
                   @ ''> (not in <subsection> IDs)'')]
        else [])"
  by (simp add: link_step_def Let_def)




section \<open>The whole run\<close>

lemma letter_desc_step_append:
  "letter_desc_step mf ps ls errs d = errs @ letter_desc_step mf ps ls [] d"
  by (simp add: letter_desc_step_parts[of mf ps ls errs] letter_desc_step_parts[of mf ps ls "[]"])

lemma letter_text_step_append:
  "letter_text_step bf l h e errs b = errs @ letter_text_step bf l h e [] b"
  by (simp add: letter_text_step_parts[of bf l h e errs] letter_text_step_parts[of bf l h e "[]"])

lemma tradition_step_append:
  "tradition_step tf l a h errs b = errs @ tradition_step tf l a h [] b"
  by (simp add: tradition_step_parts[of tf l a h errs] tradition_step_parts[of tf l a h "[]"])

lemma link_step_append:
  "link_step f k s errs e = errs @ link_step f k s [] e"
  by (simp add: link_step_parts[of f k s errs] link_step_parts[of f k s "[]"])

lemma validate_links_concat:
  "validate_links_for_commentary root f k s errs =
     errs @ concat (map (link_step f k s []) (findall root ''link''))"
  unfolding validate_links_for_commentary_def
  by (rule foldl_append_steps) (rule link_step_append)

lemma register_intlinks_concat:
  "foldl (\<lambda>errs (rfile, rroot). validate_intlinks rroot rfile lp R errs) errs rs =
     errs @ concat (map (\<lambda>(rfile, rroot).
               concat (map (intlink_step rfile lp R []) (findall rroot ''intlink''))) rs)"
proof -
  have "foldl (\<lambda>errs (rfile, rroot). validate_intlinks rroot rfile lp R errs) errs rs =
     errs @ concat (map ((\<lambda>errs (rfile, rroot). validate_intlinks rroot rfile lp R errs) []) rs)"
    by (rule foldl_append_steps) (auto simp: validate_intlinks_concat)
  also have "map ((\<lambda>errs (rfile, rroot). validate_intlinks rroot rfile lp R errs) []) rs =
      map (\<lambda>(rfile, rroot).
               concat (map (intlink_step rfile lp R []) (findall rroot ''intlink''))) rs"
    by (auto simp: validate_intlinks_concat)
  finally show ?thesis .
qed

lemma register_links_concat:
  "foldl (\<lambda>errs (rfile, rroot). validate_links_for_commentary rroot rfile k s errs) errs rs =
     errs @ concat (map (\<lambda>(rfile, rroot).
               concat (map (link_step rfile k s []) (findall rroot ''link''))) rs)"
proof -
  have "foldl (\<lambda>errs (rfile, rroot). validate_links_for_commentary rroot rfile k s errs) errs rs =
     errs @ concat (map ((\<lambda>errs (rfile, rroot).
         validate_links_for_commentary rroot rfile k s errs) []) rs)"
    by (rule foldl_append_steps) (auto simp: validate_links_concat)
  also have "map ((\<lambda>errs (rfile, rroot).
         validate_links_for_commentary rroot rfile k s errs) []) rs =
      map (\<lambda>(rfile, rroot). concat (map (link_step rfile k s []) (findall rroot ''link''))) rs"
    by (auto simp: validate_links_concat)
  finally show ?thesis .
qed

lemma collect_errors_parts:
  "collect_errors inp =
     errors (gather_registers (register_trees inp))
     @ concat (map (letter_desc_step (meta_file inp) (person_refs inp) (location_refs inp) [])
                 (findall (meta_xml inp) ''letterDesc''))
     @ concat (map (letter_text_step (briefe_file inp) (letter_refs inp) (hand_refs inp)
                      (edit_refs inp) [])
                 (findall (briefe_xml inp) ''letterText''))
     @ concat (map (tradition_step (traditions_file inp) (letter_refs inp) (app_refs inp)
                      (hand_refs inp) [])
                 (findall (traditions_xml inp) ''letterTradition''))
     @ concat (map (intlink_step (traditions_file inp) (letter_pages_of inp) (letter_refs inp) [])
                 (findall (traditions_xml inp) ''intlink''))
     @ concat (map (intlink_step (marginalien_file inp) (letter_pages_of inp)
                      (letter_refs inp) [])
                 (findall (marginalien_xml inp) ''intlink''))
     @ concat (map (\<lambda>(rfile, rroot).
                      concat (map (intlink_step rfile (letter_pages_of inp) (letter_refs inp) [])
                                (findall rroot ''intlink'')))
                 (register_trees inp))
     @ concat (map (marginal_step (marginalien_file inp) (letter_pages_of inp)
                      (letter_refs inp) [])
                 (findall (marginalien_xml inp) ''marginal''))
     @ concat (map (\<lambda>(f, root).
                      concat (map (link_step f
                                     (global_kommentar_ids (gather_registers (register_trees inp)))
                                     (global_subsection_ids (gather_registers (register_trees inp)))
                                     [])
                                (findall root ''link'')))
                 ([(meta_file inp, meta_xml inp), (references_file inp, references_xml inp),
                   (briefe_file inp, briefe_xml inp), (edits_file inp, edits_xml inp),
                   (traditions_file inp, traditions_xml inp),
                   (marginalien_file inp, marginalien_xml inp)] @ register_trees inp))"
  unfolding collect_errors_def Let_def register_links_concat register_intlinks_concat
  by (simp add: validate_links_concat validate_intlinks_concat
      foldl_append_steps[of "marginal_step _ _ _", OF marginal_step_append]
      foldl_append_steps[of "letter_desc_step _ _ _", OF letter_desc_step_append]
      foldl_append_steps[of "letter_text_step _ _ _ _", OF letter_text_step_append]
      foldl_append_steps[of "tradition_step _ _ _ _", OF tradition_step_append])

lemma check_ref_hit:
  "truthy (get h ''ref'') \<Longrightarrow> get h ''ref'' \<notin> refs \<Longrightarrow>
     check_ref f refs pre suf [] h = [violation_at f h (pre @ the (get h ''ref'') @ suf)]"
  by (simp add: check_ref_def)

lemma hit_in_checks:
  assumes "h \<in> set hs" and "truthy (get h ''ref'')" and "get h ''ref'' \<notin> refs"
  shows "violation_at f h (pre @ the (get h ''ref'') @ suf)
           \<in> set (concat (map (check_ref f refs pre suf []) hs))"
proof -
  have "violation_at f h (pre @ the (get h ''ref'') @ suf)
          \<in> set (check_ref f refs pre suf [] h)"
    using assms(2,3) by (simp add: check_ref_hit)
  with assms(1) show ?thesis by auto
qed

lemma letter_text_in_errors:
  assumes "b \<in> set (findall (briefe_xml inp) ''letterText'')"
    and "v \<in> set (letter_text_step (briefe_file inp) (letter_refs inp) (hand_refs inp)
                    (edit_refs inp) [] b)"
  shows "v \<in> set (collect_errors inp)"
  using assms unfolding collect_errors_parts by auto

lemma tradition_in_errors:
  assumes "b \<in> set (findall (traditions_xml inp) ''letterTradition'')"
    and "v \<in> set (tradition_step (traditions_file inp) (letter_refs inp) (app_refs inp)
                    (hand_refs inp) [] b)"
  shows "v \<in> set (collect_errors inp)"
  using assms unfolding collect_errors_parts by auto

text \<open>
  C6, as the code has it. The hand and edit references of the transcription document are
  checked inside the loop over its letter-text blocks, and the app and hand references of
  the tradition document inside the loop over its letter-tradition blocks. So every hand
  or edit element below a letter-text block, and every app or hand element below a
  letter-tradition block, whose \<open>ref\<close> is present (non-empty) and not in the identifier
  set of its kind is reported, with the file, the element's line and the letter of the
  block. An element of these kinds that stands outside every such block is not looked at:
  \<open>unchecked_outside_blocks_counterexample\<close> below is a run that reports nothing although
  the transcription document holds a hand element, and the tradition document an app
  element, with an unknown \<open>ref\<close>.
\<close>

theorem block_refs_reported:
  "(b \<in> set (findall (briefe_xml inp) ''letterText'') \<and> h \<in> set (findall b ''hand'') \<and>
    truthy (get h ''ref'') \<and> get h ''ref'' \<notin> hand_refs inp \<longrightarrow>
      violation_at (briefe_file inp) h
        (''Invalid hand ref: '' @ the (get h ''ref'') @ '' in letter '' @ fmt (get b ''letter''))
      \<in> set (collect_errors inp)) \<and>
   (b \<in> set (findall (briefe_xml inp) ''letterText'') \<and> h \<in> set (findall b ''edit'') \<and>
    truthy (get h ''ref'') \<and> get h ''ref'' \<notin> edit_refs inp \<longrightarrow>
      violation_at (briefe_file inp) h
        (''Invalid edit ref: '' @ the (get h ''ref'') @ '' in letter '' @ fmt (get b ''letter''))
      \<in> set (collect_errors inp)) \<and>
   (b \<in> set (findall (traditions_xml inp) ''letterTradition'') \<and>
    h \<in> set (findall b ''app'') \<and>
    truthy (get h ''ref'') \<and> get h ''ref'' \<notin> app_refs inp \<longrightarrow>
      violation_at (traditions_file inp) h
        (''Invalid app ref: '' @ the (get h ''ref'') @ '' in letterTradition ''
           @ fmt (get b ''letter''))
      \<in> set (collect_errors inp)) \<and>
   (b \<in> set (findall (traditions_xml inp) ''letterTradition'') \<and>
    h \<in> set (findall b ''hand'') \<and>
    truthy (get h ''ref'') \<and> get h ''ref'' \<notin> hand_refs inp \<longrightarrow>
      violation_at (traditions_file inp) h
        (''Invalid hand ref: '' @ the (get h ''ref'') @ '' in letterTradition ''
           @ fmt (get b ''letter''))
      \<in> set (collect_errors inp))"
proof (intro conjI impI)
  assume a: "b \<in> set (findall (briefe_xml inp) ''letterText'') \<and> h \<in> set (findall b ''hand'') \<and>
    truthy (get h ''ref'') \<and> get h ''ref'' \<notin> hand_refs inp"
  then have "violation_at (briefe_file inp) h
        (''Invalid hand ref: '' @ the (get h ''ref'') @ '' in letter '' @ fmt (get b ''letter''))
      \<in> set (letter_text_step (briefe_file inp) (letter_refs inp) (hand_refs inp)
                    (edit_refs inp) [] b)"
    unfolding letter_text_step_parts by (simp only: set_append Un_iff hit_in_checks simp_thms)
  with a show "violation_at (briefe_file inp) h
        (''Invalid hand ref: '' @ the (get h ''ref'') @ '' in letter '' @ fmt (get b ''letter''))
      \<in> set (collect_errors inp)"
    by (blast intro: letter_text_in_errors)
next
  assume a: "b \<in> set (findall (briefe_xml inp) ''letterText'') \<and> h \<in> set (findall b ''edit'') \<and>
    truthy (get h ''ref'') \<and> get h ''ref'' \<notin> edit_refs inp"
  then have "violation_at (briefe_file inp) h
        (''Invalid edit ref: '' @ the (get h ''ref'') @ '' in letter '' @ fmt (get b ''letter''))
      \<in> set (letter_text_step (briefe_file inp) (letter_refs inp) (hand_refs inp)
                    (edit_refs inp) [] b)"
    unfolding letter_text_step_parts by (simp only: set_append Un_iff hit_in_checks simp_thms)
  with a show "violation_at (briefe_file inp) h
        (''Invalid edit ref: '' @ the (get h ''ref'') @ '' in letter '' @ fmt (get b ''letter''))
      \<in> set (collect_errors inp)"
    by (blast intro: letter_text_in_errors)
next
  assume a: "b \<in> set (findall (traditions_xml inp) ''letterTradition'') \<and>
    h \<in> set (findall b ''app'') \<and>
    truthy (get h ''ref'') \<and> get h ''ref'' \<notin> app_refs inp"
  then have "violation_at (traditions_file inp) h
        (''Invalid app ref: '' @ the (get h ''ref'') @ '' in letterTradition ''
           @ fmt (get b ''letter''))
      \<in> set (tradition_step (traditions_file inp) (letter_refs inp) (app_refs inp)
                    (hand_refs inp) [] b)"
    unfolding tradition_step_parts by (simp only: set_append Un_iff hit_in_checks simp_thms)
  with a show "violation_at (traditions_file inp) h
        (''Invalid app ref: '' @ the (get h ''ref'') @ '' in letterTradition ''
           @ fmt (get b ''letter''))
      \<in> set (collect_errors inp)"
    by (blast intro: tradition_in_errors)
next
  assume a: "b \<in> set (findall (traditions_xml inp) ''letterTradition'') \<and>
    h \<in> set (findall b ''hand'') \<and>
    truthy (get h ''ref'') \<and> get h ''ref'' \<notin> hand_refs inp"
  then have "violation_at (traditions_file inp) h
        (''Invalid hand ref: '' @ the (get h ''ref'') @ '' in letterTradition ''
           @ fmt (get b ''letter''))
      \<in> set (tradition_step (traditions_file inp) (letter_refs inp) (app_refs inp)
                    (hand_refs inp) [] b)"
    unfolding tradition_step_parts by (simp only: set_append Un_iff hit_in_checks simp_thms)
  with a show "violation_at (traditions_file inp) h
        (''Invalid hand ref: '' @ the (get h ''ref'') @ '' in letterTradition ''
           @ fmt (get b ''letter''))
      \<in> set (collect_errors inp)"
    by (blast intro: tradition_in_errors)
qed

lemmas collect_simps =
  collect_errors_def Let_def gather_registers_def letter_pages_of_def
  person_refs_def location_refs_def hand_refs_def app_refs_def edit_refs_def letter_refs_def
  ref_set_def findall_def find_elem_def get_def truthy_def fmt_def violation_at_def
  get_line_number_def letter_desc_step_def letter_text_step_def tradition_step_def
  check_ref_def validate_intlinks_def intlink_step_def marginal_step_def
  validate_links_for_commentary_def link_step_def
  build_letter_page_line_map_brief_def brief_scan_def brief_step_def
  build_letter_page_line_map_trad_def trad_block_def trad_step_def
  merge_page_line_maps_def merge_pages_def

theorem unchecked_outside_blocks_counterexample:
  "Elem ''hand'' [(''ref'', ''H9'')] (Some 2) [] \<in> set (iter (briefe_xml ex_stray_refs)) \<and>
   get (Elem ''hand'' [(''ref'', ''H9'')] (Some 2) []) ''ref'' = Some ''H9'' \<and>
   Some ''H9'' \<notin> hand_refs ex_stray_refs \<and>
   Elem ''app'' [(''ref'', ''A9'')] (Some 2) [] \<in> set (iter (traditions_xml ex_stray_refs)) \<and>
   get (Elem ''app'' [(''ref'', ''A9'')] (Some 2) []) ''ref'' = Some ''A9'' \<and>
   Some ''A9'' \<notin> app_refs ex_stray_refs \<and>
   collect_errors ex_stray_refs = [] \<and>
   validate_references ex_stray_refs = ([''All references are valid.''], 0)"
  by (simp add: validate_references_def ex_stray_refs_def ex_empty_doc_def collect_simps)

theorem block_refs_reported_witness:
  "collect_errors ex_block_refs =
     [\<lparr>file_name = ''briefe.xml'', line_no = Line 3,
       message = ''Invalid hand ref: H9 in letter L1''\<rparr>,
      \<lparr>file_name = ''briefe.xml'', line_no = Line 5,
       message = ''Invalid edit ref: E9 in letter L1''\<rparr>,
      \<lparr>file_name = ''traditions.xml'', line_no = Line 3,
       message = ''Invalid app ref: A9 in letterTradition L1''\<rparr>,
      \<lparr>file_name = ''traditions.xml'', line_no = Line 4,
       message = ''Invalid hand ref: H9 in letterTradition L1''\<rparr>]"
  using block_refs_reported [where inp = ex_block_refs
      and b = "Elem ''letterText'' [(''letter'', ''L1'')] (Some 2)
             [Elem ''hand'' [(''ref'', ''H9'')] (Some 3) [],
              Elem ''hand'' [(''ref'', ''H1'')] (Some 4) [],
              Elem ''edit'' [(''ref'', ''E9'')] (Some 5) []]"
      and h = "Elem ''hand'' [(''ref'', ''H9'')] (Some 3) []"]
    block_refs_reported [where inp = ex_block_refs
      and b = "Elem ''letterText'' [(''letter'', ''L1'')] (Some 2)
             [Elem ''hand'' [(''ref'', ''H9'')] (Some 3) [],
              Elem ''hand'' [(''ref'', ''H1'')] (Some 4) [],
              Elem ''edit'' [(''ref'', ''E9'')] (Some 5) []]"
      and h = "Elem ''edit'' [(''ref'', ''E9'')] (Some 5) []"]
    block_refs_reported [where inp = ex_block_refs
      and b = "Elem ''letterTradition'' [(''letter'', ''L1'')] (Some 2)
             [Elem ''app'' [(''ref'', ''A9'')] (Some 3) [],
              Elem ''hand'' [(''ref'', ''H9'')] (Some 4) []]"
      and h = "Elem ''app'' [(''ref'', ''A9'')] (Some 3) []"]
    block_refs_reported [where inp = ex_block_refs
      and b = "Elem ''letterTradition'' [(''letter'', ''L1'')] (Some 2)
             [Elem ''app'' [(''ref'', ''A9'')] (Some 3) [],
              Elem ''hand'' [(''ref'', ''H9'')] (Some 4) []]"
      and h = "Elem ''hand'' [(''ref'', ''H9'')] (Some 4) []"]
  by (simp add: ex_block_refs_def ex_empty_doc_def collect_simps)

section \<open>The commentary registry\<close>

lemma gather_step_no_id:
  "\<not> truthy (get e ''id'') \<Longrightarrow>
     gather_step kind f (loc, errs, glob) e =
       (loc, errs @ [violation_at f e (missing_id_msg kind)], glob)"
  by (simp add: gather_step_def Let_def)

lemma gather_step_id:
  "get e ''id'' = Some k \<Longrightarrow> k \<noteq> [] \<Longrightarrow>
     gather_step kind f (loc, errs, glob) e =
       (set_add k loc,
        errs
        @ (if k \<in> set loc then [violation_at f e (dup_local_msg kind k)] else [])
        @ (if k \<in> set glob then [violation_at f e (dup_global_msg kind k)] else [])
        @ (if find_elem e ''lemma'' = None
           then [violation_at f e (missing_lemma_msg kind k)] else []),
        set_add k glob)"
  by (simp add: gather_step_def truthy_def set_add_def Let_def)

lemma last_dup_local: "last (dup_local_msg kind k) = CHR ''e''"
  by (simp add: dup_local_msg_def)

lemma last_dup_global: "last (dup_global_msg kind k) = CHR ''s''"
  by (simp add: dup_global_msg_def)

lemma last_missing_lemma: "last (missing_lemma_msg kind k) = CHR ''d''"
  by (simp add: missing_lemma_msg_def)

lemma last_missing_id: "last (missing_id_msg kind) = CHR ''d''"
  by (simp add: missing_id_msg_def)

lemma dup_global_neq [simp]:
  "dup_local_msg kind k \<noteq> dup_global_msg kind' k'"
  "missing_lemma_msg kind k \<noteq> dup_global_msg kind' k'"
  "missing_id_msg kind \<noteq> dup_global_msg kind' k'"
  using last_dup_local[of kind k] last_dup_global[of kind' k'] last_missing_lemma[of kind k]
    last_missing_id[of kind]
  by auto

lemma dup_global_inj [simp]: "(dup_global_msg kind k = dup_global_msg kind k') = (k = k')"
  by (simp add: dup_global_msg_def)

lemma dup_global_kinds [simp]:
  "dup_global_msg ''subsection'' k \<noteq> dup_global_msg ''kommentar'' k'"
  by (simp add: dup_global_msg_def)

lemma violation_at_msg [simp]: "message (violation_at f e m) = m"
  by (simp add: violation_at_def)

lemma gather_step_cases:
  obtains (no_id) "\<not> truthy (get e ''id'')"
  | (id) k where "get e ''id'' = Some k" and "k \<noteq> []"
  by (cases "get e ''id''") (auto simp: truthy_def)

lemma set_set_add [simp]: "set (set_add k xs) = insert k (set xs)"
  by (auto simp: set_add_def)

lemma distinct_set_add [simp]: "distinct (set_add k xs) = distinct xs"
  by (auto simp: set_add_def)

lemma gather_fold_pool:
  "set (snd (snd (foldl (gather_step kind f) (loc, errs, glob) es))) =
     set glob \<union> {k. \<exists>e\<in>set es. get e ''id'' = Some k \<and> k \<noteq> []}"
proof (induction es arbitrary: loc errs glob)
  case Nil
  show ?case by simp
next
  case (Cons e es)
  show ?case
  proof (cases rule: gather_step_cases[of e])
    case no_id
    then have "\<And>k. get e ''id'' = Some k \<Longrightarrow> k = []" by (auto simp: truthy_def)
    then show ?thesis
      by (auto simp: gather_step_no_id[OF no_id] Cons.IH)
  next
    case (id k)
    then show ?thesis
      by (auto simp: gather_step_id[OF id] Cons.IH)
  qed
qed

lemma gather_fold_local:
  "set (fst (foldl (gather_step kind f) (loc, errs, glob) es)) =
     set loc \<union> {k. \<exists>e\<in>set es. get e ''id'' = Some k \<and> k \<noteq> []}"
proof (induction es arbitrary: loc errs glob)
  case Nil
  show ?case by simp
next
  case (Cons e es)
  show ?case
  proof (cases rule: gather_step_cases[of e])
    case no_id
    then have "\<And>k. get e ''id'' = Some k \<Longrightarrow> k = []" by (auto simp: truthy_def)
    then show ?thesis
      by (auto simp: gather_step_no_id[OF no_id] Cons.IH)
  next
    case (id k)
    then show ?thesis
      by (auto simp: gather_step_id[OF id] Cons.IH)
  qed
qed

lemma gather_fold_distinct:
  "distinct glob \<Longrightarrow> distinct (snd (snd (foldl (gather_step kind f) (loc, errs, glob) es)))"
proof (induction es arbitrary: loc errs glob)
  case Nil
  then show ?case by simp
next
  case (Cons e es)
  show ?case
  proof (cases rule: gather_step_cases[of e])
    case no_id
    show ?thesis using Cons.prems by (simp add: gather_step_no_id[OF no_id] Cons.IH)
  next
    case (id k)
    show ?thesis using Cons.prems by (simp add: gather_step_id[OF id] Cons.IH)
  qed
qed

lemma gather_fold_prefix:
  "\<exists>new. fst (snd (foldl (gather_step kind f) (loc, errs, glob) es)) = errs @ new"
proof (induction es arbitrary: loc errs glob)
  case Nil
  show ?case by simp
next
  case (Cons e es)
  show ?case
  proof (cases rule: gather_step_cases[of e])
    case no_id
    obtain new where
      "fst (snd (foldl (gather_step kind f)
          (loc, errs @ [violation_at f e (missing_id_msg kind)], glob) es)) =
        (errs @ [violation_at f e (missing_id_msg kind)]) @ new"
      using Cons.IH by blast
    then show ?thesis by (simp add: gather_step_no_id[OF no_id])
  next
    case (id k)
    let ?add = "(if k \<in> set loc then [violation_at f e (dup_local_msg kind k)] else [])
        @ (if k \<in> set glob then [violation_at f e (dup_global_msg kind k)] else [])
        @ (if find_elem e ''lemma'' = None
           then [violation_at f e (missing_lemma_msg kind k)] else [])"
    obtain new where
      "fst (snd (foldl (gather_step kind f) (set_add k loc, errs @ ?add, set_add k glob) es)) =
        (errs @ ?add) @ new"
      using Cons.IH by blast
    then show ?thesis by (simp add: gather_step_id[OF id])
  qed
qed

lemma gather_fold_keeps:
  "v \<in> set errs \<Longrightarrow> v \<in> set (fst (snd (foldl (gather_step kind f) (loc, errs, glob) es)))"
  using gather_fold_prefix[of kind f loc errs glob es] by auto

lemma gather_fold_missing_lemma:
  assumes "e \<in> set es" and "get e ''id'' = Some k" and "k \<noteq> []"
    and "find_elem e ''lemma'' = None"
  shows "violation_at f e (missing_lemma_msg kind k)
           \<in> set (fst (snd (foldl (gather_step kind f) (loc, errs, glob) es)))"
  using assms(1)
proof (induction es arbitrary: loc errs glob)
  case Nil
  then show ?case by simp
next
  case (Cons x es)
  show ?case
  proof (cases "x = e")
    case True
    show ?thesis
      by (simp add: True gather_step_id[OF assms(2,3)] assms(4) gather_fold_keeps)
  next
    case False
    with Cons.prems have "e \<in> set es" by simp
    then have "\<And>loc errs glob. violation_at f e (missing_lemma_msg kind k)
           \<in> set (fst (snd (foldl (gather_step kind f) (loc, errs, glob) es)))"
      by (rule Cons.IH)
    then show ?thesis
      by (cases "gather_step kind f (loc, errs, glob) x") simp
  qed
qed

lemma gather_fields:
  "global_kommentar_ids (gather_commentaries_and_subsections root f r) =
     snd (snd (foldl (gather_step ''kommentar'' f) ([], errors r, global_kommentar_ids r)
                 (findall root ''kommentar'')))"
  "global_subsection_ids (gather_commentaries_and_subsections root f r) =
     snd (snd (foldl (gather_step ''subsection'' f)
                 ([], fst (snd (foldl (gather_step ''kommentar'' f)
                                  ([], errors r, global_kommentar_ids r)
                                  (findall root ''kommentar''))),
                  global_subsection_ids r)
                 (findall root ''subsection'')))"
  "errors (gather_commentaries_and_subsections root f r) =
     fst (snd (foldl (gather_step ''subsection'' f)
                 ([], fst (snd (foldl (gather_step ''kommentar'' f)
                                  ([], errors r, global_kommentar_ids r)
                                  (findall root ''kommentar''))),
                  global_subsection_ids r)
                 (findall root ''subsection'')))"
  by (simp_all add: gather_commentaries_and_subsections_def split: prod.splits)

lemma gather_doc_komm:
  "set (global_kommentar_ids (gather_commentaries_and_subsections root f r)) =
     set (global_kommentar_ids r)
     \<union> {k. \<exists>e\<in>set (findall root ''kommentar''). get e ''id'' = Some k \<and> k \<noteq> []}"
  by (simp only: gather_fields gather_fold_pool)

lemma gather_doc_subs:
  "set (global_subsection_ids (gather_commentaries_and_subsections root f r)) =
     set (global_subsection_ids r)
     \<union> {k. \<exists>e\<in>set (findall root ''subsection''). get e ''id'' = Some k \<and> k \<noteq> []}"
  by (simp only: gather_fields gather_fold_pool)

lemma gather_doc_distinct:
  "distinct (global_kommentar_ids r) \<Longrightarrow>
     distinct (global_kommentar_ids (gather_commentaries_and_subsections root f r))"
  "distinct (global_subsection_ids r) \<Longrightarrow>
     distinct (global_subsection_ids (gather_commentaries_and_subsections root f r))"
  by (simp_all only: gather_fields gather_fold_distinct)

lemma gather_doc_keeps:
  "v \<in> set (errors r) \<Longrightarrow> v \<in> set (errors (gather_commentaries_and_subsections root f r))"
  by (simp only: gather_fields gather_fold_keeps)

lemma gather_doc_missing_lemma:
  assumes "get e ''id'' = Some k" and "k \<noteq> []" and "find_elem e ''lemma'' = None"
  shows "e \<in> set (findall root ''kommentar'') \<Longrightarrow>
           violation_at f e (missing_lemma_msg ''kommentar'' k)
             \<in> set (errors (gather_commentaries_and_subsections root f r))"
    and "e \<in> set (findall root ''subsection'') \<Longrightarrow>
           violation_at f e (missing_lemma_msg ''subsection'' k)
             \<in> set (errors (gather_commentaries_and_subsections root f r))"
proof -
  assume "e \<in> set (findall root ''kommentar'')"
  then have "violation_at f e (missing_lemma_msg ''kommentar'' k)
      \<in> set (fst (snd (foldl (gather_step ''kommentar'' f)
                         ([], errors r, global_kommentar_ids r) (findall root ''kommentar''))))"
    using assms by (rule gather_fold_missing_lemma)
  then show "violation_at f e (missing_lemma_msg ''kommentar'' k)
             \<in> set (errors (gather_commentaries_and_subsections root f r))"
    unfolding gather_fields by (rule gather_fold_keeps)
next
  assume "e \<in> set (findall root ''subsection'')"
  then show "violation_at f e (missing_lemma_msg ''subsection'' k)
             \<in> set (errors (gather_commentaries_and_subsections root f r))"
    unfolding gather_fields using assms by (rule gather_fold_missing_lemma)
qed

lemma gather_from_komm:
  "set (global_kommentar_ids (gather_from r0 rs)) =
     set (global_kommentar_ids r0)
     \<union> {k. \<exists>(f, root)\<in>set rs. \<exists>e\<in>set (findall root ''kommentar'').
              get e ''id'' = Some k \<and> k \<noteq> []}"
  by (induction rs arbitrary: r0) (auto simp: gather_doc_komm)

lemma gather_from_subs:
  "set (global_subsection_ids (gather_from r0 rs)) =
     set (global_subsection_ids r0)
     \<union> {k. \<exists>(f, root)\<in>set rs. \<exists>e\<in>set (findall root ''subsection'').
              get e ''id'' = Some k \<and> k \<noteq> []}"
  by (induction rs arbitrary: r0) (auto simp: gather_doc_subs)

lemma gather_from_distinct:
  "distinct (global_kommentar_ids r0) \<Longrightarrow> distinct (global_kommentar_ids (gather_from r0 rs))"
  "distinct (global_subsection_ids r0) \<Longrightarrow> distinct (global_subsection_ids (gather_from r0 rs))"
  by (induction rs arbitrary: r0) (auto simp: gather_doc_distinct)

lemma gather_from_keeps:
  "v \<in> set (errors r0) \<Longrightarrow> v \<in> set (errors (gather_from r0 rs))"
  by (induction rs arbitrary: r0) (auto simp: gather_doc_keeps)

lemma gather_from_missing_lemma:
  assumes "get e ''id'' = Some k" and "k \<noteq> []" and "find_elem e ''lemma'' = None"
    and "(f, root) \<in> set rs"
  shows "e \<in> set (findall root ''kommentar'') \<Longrightarrow>
           violation_at f e (missing_lemma_msg ''kommentar'' k) \<in> set (errors (gather_from r0 rs))"
    and "e \<in> set (findall root ''subsection'') \<Longrightarrow>
           violation_at f e (missing_lemma_msg ''subsection'' k) \<in> set (errors (gather_from r0 rs))"
  using assms(4)
proof (induction rs arbitrary: r0)
  case Nil
  { case 1 then show ?case by simp }
  { case 2 then show ?case by simp }
next
  case (Cons x rs)
  { case 1
    show ?case
    proof (cases "x = (f, root)")
      case True
      then show ?thesis
        using gather_doc_missing_lemma(1)[OF assms(1-3) 1(1), of f r0]
        by (simp add: gather_from_keeps)
    next
      case False
      with 1 have "(f, root) \<in> set rs" by simp
      from Cons.IH(1)[OF 1(1) this] show ?thesis by simp
    qed }
  { case 2
    show ?case
    proof (cases "x = (f, root)")
      case True
      then show ?thesis
        using gather_doc_missing_lemma(2)[OF assms(1-3) 2(1), of f r0]
        by (simp add: gather_from_keeps)
    next
      case False
      with 2 have "(f, root) \<in> set rs" by simp
      from Cons.IH(2)[OF 2(1) this] show ?thesis by simp
    qed }
qed

lemma tl_iter: "tl (iter e) = concat (map iter (children e))"
  by (cases e) simp

lemma find_elem_None_findall: "(find_elem e t = None) = (findall e t = [])"
  by (simp add: find_elem_def split: list.splits)

lemma find_elem_None: "(find_elem e t = None) = (\<forall>d\<in>set (tl (iter e)). tag d \<noteq> t)"
  unfolding find_elem_None_findall findall_def tl_iter filter_empty_conv by simp

lemma registry_errors_in_collect:
  "v \<in> set (errors (gather_registers (register_trees inp))) \<Longrightarrow> v \<in> set (collect_errors inp)"
  by (simp add: collect_errors_parts)

lemma truthy_the: "truthy v \<Longrightarrow> v = Some (the v) \<and> the v \<noteq> []"
  by (cases v) (simp_all add: truthy_def)

text \<open>
  C7. A commentary entry or a subsection of a register document whose \<open>id\<close> is present
  (non-empty) and whose subtree holds no \<open>lemma\<close> element: the violation
  "missing \<open>lemma\<close> child" is in the error list of the run, the identifier is in the
  global pool of its kind all the same, and a link whose \<open>ref\<close> is that identifier adds no
  violation. The search for the \<open>lemma\<close> looks at every proper descendant of the entry
  (\<open>tl (iter e)\<close>), not at its children only. The violation is appended after the two
  duplicate checks whatever they found: for any local set and any pool, the step adds the
  duplicate violations that apply and then this one, and registers the identifier.
\<close>

theorem missing_lemma_registered:
  "((rfile, rroot) \<in> set (register_trees inp) \<and> e \<in> set (findall rroot ''kommentar'') \<and>
    truthy (get e ''id'') \<and> find_elem e ''lemma'' = None \<longrightarrow>
      violation_at rfile e (missing_lemma_msg ''kommentar'' (the (get e ''id'')))
        \<in> set (collect_errors inp) \<and>
      the (get e ''id'') \<in> set (global_kommentar_ids (gather_registers (register_trees inp))) \<and>
      (get l ''ref'' = get e ''id'' \<and> get l ''subref'' = None \<longrightarrow>
         link_step lf (global_kommentar_ids (gather_registers (register_trees inp)))
           (global_subsection_ids (gather_registers (register_trees inp))) errs l = errs)) \<and>
   ((rfile, rroot) \<in> set (register_trees inp) \<and> e \<in> set (findall rroot ''subsection'') \<and>
    truthy (get e ''id'') \<and> find_elem e ''lemma'' = None \<longrightarrow>
      violation_at rfile e (missing_lemma_msg ''subsection'' (the (get e ''id'')))
        \<in> set (collect_errors inp) \<and>
      the (get e ''id'') \<in> set (global_subsection_ids (gather_registers (register_trees inp))) \<and>
      (get l ''ref'' = get e ''id'' \<and>
       (get l ''subref'' = None \<or> get l ''subref'' = get e ''id'') \<longrightarrow>
         link_step lf (global_kommentar_ids (gather_registers (register_trees inp)))
           (global_subsection_ids (gather_registers (register_trees inp))) errs l = errs)) \<and>
   ((find_elem e ''lemma'' = None) = (\<forall>d\<in>set (tl (iter e)). tag d \<noteq> ''lemma'')) \<and>
   (truthy (get e ''id'') \<and> find_elem e ''lemma'' = None \<longrightarrow>
      gather_step kind f (loc, errs, glob) e =
        (set_add (the (get e ''id'')) loc,
         errs
         @ (if the (get e ''id'') \<in> set loc
            then [violation_at f e (dup_local_msg kind (the (get e ''id'')))] else [])
         @ (if the (get e ''id'') \<in> set glob
            then [violation_at f e (dup_global_msg kind (the (get e ''id'')))] else [])
         @ [violation_at f e (missing_lemma_msg kind (the (get e ''id'')))],
         set_add (the (get e ''id'')) glob))"
proof (intro conjI impI)
  assume a: "(rfile, rroot) \<in> set (register_trees inp) \<and>
    e \<in> set (findall rroot ''kommentar'') \<and> truthy (get e ''id'') \<and>
    find_elem e ''lemma'' = None"
  then have id: "get e ''id'' = Some (the (get e ''id''))" "the (get e ''id'') \<noteq> []"
    using truthy_the by blast+
  from a have m: "(rfile, rroot) \<in> set (register_trees inp)"
    and el: "e \<in> set (findall rroot ''kommentar'')" and nl: "find_elem e ''lemma'' = None"
    by simp_all
  have "violation_at rfile e (missing_lemma_msg ''kommentar'' (the (get e ''id'')))
        \<in> set (errors (gather_registers (register_trees inp)))"
    unfolding gather_registers_def
    by (rule gather_from_missing_lemma(1)[OF id nl m el])
  then show "violation_at rfile e (missing_lemma_msg ''kommentar'' (the (get e ''id'')))
        \<in> set (collect_errors inp)"
    by (rule registry_errors_in_collect)
  show k: "the (get e ''id'') \<in> set (global_kommentar_ids (gather_registers (register_trees inp)))"
    unfolding gather_registers_def gather_from_komm using a id by auto
  assume "get l ''ref'' = get e ''id'' \<and> get l ''subref'' = None"
  then show "link_step lf (global_kommentar_ids (gather_registers (register_trees inp)))
           (global_subsection_ids (gather_registers (register_trees inp))) errs l = errs"
    using k by (simp add: link_step_parts truthy_def)
next
  assume a: "(rfile, rroot) \<in> set (register_trees inp) \<and>
    e \<in> set (findall rroot ''subsection'') \<and> truthy (get e ''id'') \<and>
    find_elem e ''lemma'' = None"
  then have id: "get e ''id'' = Some (the (get e ''id''))" "the (get e ''id'') \<noteq> []"
    using truthy_the by blast+
  from a have m: "(rfile, rroot) \<in> set (register_trees inp)"
    and el: "e \<in> set (findall rroot ''subsection'')" and nl: "find_elem e ''lemma'' = None"
    by simp_all
  have "violation_at rfile e (missing_lemma_msg ''subsection'' (the (get e ''id'')))
        \<in> set (errors (gather_registers (register_trees inp)))"
    unfolding gather_registers_def
    by (rule gather_from_missing_lemma(2)[OF id nl m el])
  then show "violation_at rfile e (missing_lemma_msg ''subsection'' (the (get e ''id'')))
        \<in> set (collect_errors inp)"
    by (rule registry_errors_in_collect)
  show k: "the (get e ''id'') \<in> set (global_subsection_ids (gather_registers (register_trees inp)))"
    unfolding gather_registers_def gather_from_subs using a id by auto
  assume "get l ''ref'' = get e ''id'' \<and>
       (get l ''subref'' = None \<or> get l ''subref'' = get e ''id'')"
  then show "link_step lf (global_kommentar_ids (gather_registers (register_trees inp)))
           (global_subsection_ids (gather_registers (register_trees inp))) errs l = errs"
    using k by (auto simp add: link_step_parts truthy_def)
next
  show "(find_elem e ''lemma'' = None) = (\<forall>d\<in>set (tl (iter e)). tag d \<noteq> ''lemma'')"
    by (rule find_elem_None)
next
  assume a: "truthy (get e ''id'') \<and> find_elem e ''lemma'' = None"
  then have id: "get e ''id'' = Some (the (get e ''id''))" "the (get e ''id'') \<noteq> []"
    using truthy_the by blast+
  show "gather_step kind f (loc, errs, glob) e =
        (set_add (the (get e ''id'')) loc,
         errs
         @ (if the (get e ''id'') \<in> set loc
            then [violation_at f e (dup_local_msg kind (the (get e ''id'')))] else [])
         @ (if the (get e ''id'') \<in> set glob
            then [violation_at f e (dup_global_msg kind (the (get e ''id'')))] else [])
         @ [violation_at f e (missing_lemma_msg kind (the (get e ''id'')))],
         set_add (the (get e ''id'')) glob)"
    using a by (simp add: gather_step_id[OF id])
qed

lemmas gather_simps =
  gather_commentaries_and_subsections_def gather_step_def set_add_def missing_id_msg_def
  dup_local_msg_def dup_global_msg_def missing_lemma_msg_def

theorem missing_lemma_registered_witness:
  "collect_errors (ex_registers_only [(''reg.xml'', ex_register)]) =
     [\<lparr>file_name = ''reg.xml'', line_no = Line 2,
       message = ''<kommentar id='' @ sq @ ''K1'' @ sq @ ''> missing <lemma> child''\<rparr>,
      \<lparr>file_name = ''reg.xml'', line_no = Line 6,
       message = ''<subsection id='' @ sq @ ''S1'' @ sq @ ''> missing <lemma> child''\<rparr>] \<and>
   global_kommentar_ids (gather_registers [(''reg.xml'', ex_register)]) = [''K1'', ''K2''] \<and>
   global_subsection_ids (gather_registers [(''reg.xml'', ex_register)]) = [''S1''] \<and>
   find_elem (Elem ''kommentar'' [(''id'', ''K1'')] (Some 2) []) ''lemma'' = None \<and>
   find_elem (Elem ''kommentar'' [(''id'', ''K2'')] (Some 3)
                [Elem ''p'' [] (Some 4) [Elem ''lemma'' [] (Some 5) []]]) ''lemma''
     = Some (Elem ''lemma'' [] (Some 5) []) \<and>
   link_step ''reg.xml'' [''K1'', ''K2''] [''S1''] []
     (Elem ''link'' [(''ref'', ''K1'')] (Some 7) []) = []"
  using
    missing_lemma_registered [where inp = "ex_registers_only [(''reg.xml'', ex_register)]"
      and rfile = "''reg.xml''" and rroot = ex_register
      and e = "Elem ''kommentar'' [(''id'', ''K1'')] (Some 2) []"
      and l = "Elem ''link'' [(''ref'', ''K1'')] (Some 7) []" and lf = "''reg.xml''"
      and errs = "[]" and kind = "''kommentar''" and f = "''reg.xml''" and loc = "[]"
      and glob = "[]"]
    missing_lemma_registered [where inp = "ex_registers_only [(''reg.xml'', ex_register)]"
      and rfile = "''reg.xml''" and rroot = ex_register
      and e = "Elem ''subsection'' [(''id'', ''S1'')] (Some 6) []"
      and l = "Elem ''link'' [(''ref'', ''S1''), (''subref'', ''S1'')] (Some 7) []"
      and lf = "''reg.xml''"
      and errs = "[]" and kind = "''subsection''" and f = "''reg.xml''" and loc = "[]"
      and glob = "[]"]
  by (simp add: ex_registers_only_def ex_register_def ex_empty_doc_def collect_simps
      gather_simps)

lemma gather_fold_count_global:
  assumes "kid \<noteq> []"
  shows "length (filter (\<lambda>v. message v = dup_global_msg kind kid)
                   (fst (snd (foldl (gather_step kind f) (loc, errs, glob) es)))) =
         length (filter (\<lambda>v. message v = dup_global_msg kind kid) errs)
         + (length (filter (\<lambda>e. get e ''id'' = Some kid) es)
            - (if kid \<in> set glob then 0 else 1))"
proof (induction es arbitrary: loc errs glob)
  case Nil
  show ?case by simp
next
  case (Cons e es)
  show ?case
  proof (cases rule: gather_step_cases[of e])
    case no_id
    with assms have "get e ''id'' \<noteq> Some kid" by (auto simp: truthy_def)
    then show ?thesis
      by (simp add: gather_step_no_id[OF no_id] Cons.IH)
  next
    case (id k)
    show ?thesis
    proof (cases "k = kid")
      case True
      show ?thesis
        using id(1) by (simp add: gather_step_id[OF id] Cons.IH True)
    next
      case False
      then show ?thesis
        using id(1) by (simp add: gather_step_id[OF id] Cons.IH)
    qed
  qed
qed

lemma gather_fold_count_other:
  "length (filter (\<lambda>v. message v = dup_global_msg ''kommentar'' kid)
             (fst (snd (foldl (gather_step ''subsection'' f) (loc, errs, glob) es)))) =
   length (filter (\<lambda>v. message v = dup_global_msg ''kommentar'' kid) errs)"
proof (induction es arbitrary: loc errs glob)
  case Nil
  show ?case by simp
next
  case (Cons e es)
  show ?case
  proof (cases rule: gather_step_cases[of e])
    case no_id
    then show ?thesis
      by (simp add: gather_step_no_id[OF no_id] Cons.IH)
  next
    case (id k)
    show ?thesis
      by (simp add: gather_step_id[OF id] Cons.IH)
  qed
qed

lemma gather_doc_count:
  assumes "kid \<noteq> []"
  shows "length (filter (\<lambda>v. message v = dup_global_msg ''kommentar'' kid)
                   (errors (gather_commentaries_and_subsections root f r))) =
         length (filter (\<lambda>v. message v = dup_global_msg ''kommentar'' kid) (errors r))
         + (length (filter (\<lambda>e. get e ''id'' = Some kid) (findall root ''kommentar''))
            - (if kid \<in> set (global_kommentar_ids r) then 0 else 1))"
  unfolding gather_fields gather_fold_count_other gather_fold_count_global[OF assms] ..

lemma hd_dup_global: "hd (dup_global_msg kind k) = CHR ''D''"
  by (simp add: dup_global_msg_def)

lemma letter_desc_step_msgs:
  "v \<in> set (letter_desc_step mf ps ls [] d) \<Longrightarrow> hd (message v) \<noteq> CHR ''D''"
  by (auto simp: letter_desc_step_parts check_ref_def Let_def split: if_splits option.splits)

lemma letter_text_step_msgs:
  "v \<in> set (letter_text_step bf l h e [] b) \<Longrightarrow> hd (message v) \<noteq> CHR ''D''"
  by (auto simp: letter_text_step_parts check_ref_def Let_def split: if_splits)

lemma tradition_step_msgs:
  "v \<in> set (tradition_step tf l a h [] b) \<Longrightarrow> hd (message v) \<noteq> CHR ''D''"
  by (auto simp: tradition_step_parts check_ref_def Let_def split: if_splits)

lemma intlink_step_msgs:
  "v \<in> set (intlink_step f lp R [] e) \<Longrightarrow> hd (message v) \<noteq> CHR ''D''"
  by (auto simp: intlink_step_def Let_def split: if_splits)

lemma marginal_step_msgs:
  "v \<in> set (marginal_step f lp R [] e) \<Longrightarrow> hd (message v) \<noteq> CHR ''D''"
  by (auto simp: marginal_step_def Let_def split: if_splits)

lemma link_step_msgs:
  "v \<in> set (link_step f k s [] e) \<Longrightarrow> hd (message v) \<noteq> CHR ''D''"
  by (auto simp: link_step_parts split: if_splits)

lemmas step_msgs =
  letter_desc_step_msgs letter_text_step_msgs tradition_step_msgs intlink_step_msgs
  marginal_step_msgs link_step_msgs

lemma collect_errors_rest:
  "\<exists>rest. collect_errors inp = errors (gather_registers (register_trees inp)) @ rest \<and>
          (\<forall>v\<in>set rest. hd (message v) \<noteq> CHR ''D'')"
  unfolding collect_errors_parts
  by (intro exI conjI, rule refl) (auto dest: step_msgs)

lemma collect_errors_count:
  "length (filter (\<lambda>v. message v = dup_global_msg kind kid) (collect_errors inp)) =
   length (filter (\<lambda>v. message v = dup_global_msg kind kid)
             (errors (gather_registers (register_trees inp))))"
proof -
  obtain rest where r: "collect_errors inp = errors (gather_registers (register_trees inp)) @ rest"
    and n: "\<forall>v\<in>set rest. hd (message v) \<noteq> CHR ''D''"
    using collect_errors_rest by blast
  have "filter (\<lambda>v. message v = dup_global_msg kind kid) rest = []"
    unfolding filter_empty_conv using n hd_dup_global by metis
  then show ?thesis by (simp add: r)
qed

lemma count_list_distinct: "distinct xs \<Longrightarrow> x \<in> set xs \<Longrightarrow> count_list xs x = 1"
  by (induction xs) (auto simp: count_list_0_iff)

lemma occurs_if_counted:
  "length (filter (\<lambda>e. get e ''id'' = Some kid) es) = 1 \<Longrightarrow>
     \<exists>e\<in>set es. get e ''id'' = Some kid"
proof (rule ccontr)
  assume c: "length (filter (\<lambda>e. get e ''id'' = Some kid) es) = 1"
    and n: "\<not> (\<exists>e\<in>set es. get e ''id'' = Some kid)"
  from n have "filter (\<lambda>e. get e ''id'' = Some kid) es = []"
    by (simp add: filter_empty_conv)
  with c show False by simp
qed

lemma gather_registers_distinct:
  "distinct (global_kommentar_ids (gather_registers rs))"
  "distinct (global_subsection_ids (gather_registers rs))"
  unfolding gather_registers_def by (simp_all add: gather_from_distinct)

text \<open>
  C3. Two register documents are processed one after the other, and an identifier (a
  non-empty \<open>id\<close> value; the source reports an empty one as missing) is the \<open>id\<close> of
  exactly one \<open>kommentar\<close> element in each. Then the error list of the run holds exactly
  one violation "Duplicate ... across multiple registers" for that identifier, the pool
  of commentary entries holds the identifier exactly once, and a link whose \<open>ref\<close> is
  the identifier adds no violation. Whatever the register documents are, and however many
  duplicates were reported, no identifier stands twice in either pool.
\<close>

theorem cross_register_duplicate:
  "(kid \<noteq> [] \<and> register_trees inp = [(f1, r1), (f2, r2)] \<and>
    length (filter (\<lambda>e. get e ''id'' = Some kid) (findall r1 ''kommentar'')) = 1 \<and>
    length (filter (\<lambda>e. get e ''id'' = Some kid) (findall r2 ''kommentar'')) = 1 \<longrightarrow>
      length (filter (\<lambda>v. message v = dup_global_msg ''kommentar'' kid) (collect_errors inp)) = 1 \<and>
      count_list (global_kommentar_ids (gather_registers (register_trees inp))) kid = 1 \<and>
      (get l ''ref'' = Some kid \<and> get l ''subref'' = None \<longrightarrow>
         link_step lf (global_kommentar_ids (gather_registers (register_trees inp)))
           (global_subsection_ids (gather_registers (register_trees inp))) errs l = errs)) \<and>
   distinct (global_kommentar_ids (gather_registers rs)) \<and>
   distinct (global_subsection_ids (gather_registers rs))"
proof (intro conjI impI)
  assume a: "kid \<noteq> [] \<and> register_trees inp = [(f1, r1), (f2, r2)] \<and>
    length (filter (\<lambda>e. get e ''id'' = Some kid) (findall r1 ''kommentar'')) = 1 \<and>
    length (filter (\<lambda>e. get e ''id'' = Some kid) (findall r2 ''kommentar'')) = 1"
  then have kid: "kid \<noteq> []" and rs: "register_trees inp = [(f1, r1), (f2, r2)]"
    and o1: "length (filter (\<lambda>e. get e ''id'' = Some kid) (findall r1 ''kommentar'')) = 1"
    and o2: "length (filter (\<lambda>e. get e ''id'' = Some kid) (findall r2 ''kommentar'')) = 1"
    by simp_all
  let ?r0 = "\<lparr>errors = [], global_kommentar_ids = [], global_subsection_ids = []\<rparr>"
  let ?ra = "gather_commentaries_and_subsections r1 f1 ?r0"
  have g: "gather_registers (register_trees inp) = gather_commentaries_and_subsections r2 f2 ?ra"
    by (simp add: gather_registers_def rs)
  have in_a: "kid \<in> set (global_kommentar_ids ?ra)"
    using occurs_if_counted[OF o1] kid by (auto simp: gather_doc_komm)
  have c_a: "length (filter (\<lambda>v. message v = dup_global_msg ''kommentar'' kid) (errors ?ra)) = 0"
    using o1 by (simp add: gather_doc_count[OF kid])
  have "length (filter (\<lambda>v. message v = dup_global_msg ''kommentar'' kid)
                  (errors (gather_commentaries_and_subsections r2 f2 ?ra))) =
        length (filter (\<lambda>v. message v = dup_global_msg ''kommentar'' kid) (errors ?ra))
         + (length (filter (\<lambda>e. get e ''id'' = Some kid) (findall r2 ''kommentar''))
            - (if kid \<in> set (global_kommentar_ids ?ra) then 0 else 1))"
    by (rule gather_doc_count[OF kid])
  also have "\<dots> = 1"
    using c_a o2 in_a by simp
  finally have "length (filter (\<lambda>v. message v = dup_global_msg ''kommentar'' kid)
                  (errors (gather_registers (register_trees inp)))) = 1"
    by (simp only: g)
  then show "length (filter (\<lambda>v. message v = dup_global_msg ''kommentar'' kid)
                       (collect_errors inp)) = 1"
    by (simp only: collect_errors_count)
  have mem: "kid \<in> set (global_kommentar_ids (gather_registers (register_trees inp)))"
    unfolding g using in_a by (simp add: gather_doc_komm)
  then show "count_list (global_kommentar_ids (gather_registers (register_trees inp))) kid = 1"
    by (intro count_list_distinct gather_registers_distinct)
  assume "get l ''ref'' = Some kid \<and> get l ''subref'' = None"
  then show "link_step lf (global_kommentar_ids (gather_registers (register_trees inp)))
           (global_subsection_ids (gather_registers (register_trees inp))) errs l = errs"
    using mem by (simp add: link_step_parts truthy_def)
qed (rule gather_registers_distinct)+

theorem cross_register_duplicate_witness:
  "length (filter (\<lambda>e. get e ''id'' = Some ''K1'') (findall ex_reg_k1 ''kommentar'')) = 1 \<and>
   collect_errors (ex_registers_only [(''a.xml'', ex_reg_k1), (''b.xml'', ex_reg_k1)]) =
     [\<lparr>file_name = ''b.xml'', line_no = Line 2,
       message = ''Duplicate <kommentar id='' @ sq @ ''K1'' @ sq
                   @ ''> across multiple registers''\<rparr>] \<and>
   global_kommentar_ids (gather_registers [(''a.xml'', ex_reg_k1), (''b.xml'', ex_reg_k1)]) =
     [''K1''] \<and>
   link_step ''x.xml'' [''K1''] [] [] (Elem ''link'' [(''ref'', ''K1'')] (Some 9) []) = []"
  using cross_register_duplicate [where kid = "''K1''"
      and inp = "ex_registers_only [(''a.xml'', ex_reg_k1), (''b.xml'', ex_reg_k1)]"
      and ?f1.0 = "''a.xml''" and ?r1.0 = ex_reg_k1 and ?f2.0 = "''b.xml''" and ?r2.0 = ex_reg_k1
      and l = "Elem ''link'' [(''ref'', ''K1'')] (Some 9) []" and lf = "''x.xml''"
      and errs = "[]" and rs = "[(''a.xml'', ex_reg_k1), (''b.xml'', ex_reg_k1)]"]
  by (simp add: ex_registers_only_def ex_reg_k1_def ex_empty_doc_def collect_simps gather_simps)

lemma set_add_member: "k \<in> set xs \<Longrightarrow> set_add k xs = xs"
  by (simp add: set_add_def)

text \<open>
  C10. Within one register document the loop over the elements of a kind starts with an
  empty local set and the global pool as it stands. Once an element with a (non-empty)
  identifier has been processed, the identifier is in the local set and in the pool, so a
  later element of the same document with the same identifier gets both duplicate
  violations, "in this file" and then "across multiple registers" (followed by the
  missing-\<open>lemma\<close> violation if that applies), and neither the local set nor the pool
  changes: the pool still holds the identifier exactly once. This holds for either kind,
  \<open>kommentar\<close> or \<open>subsection\<close>. For a run with a single register document in which the
  identifier is the \<open>id\<close> of two \<open>kommentar\<close> elements, the error list holds exactly one
  across-registers violation for it although no other register exists.
\<close>

theorem duplicate_in_one_register:
  "(kid \<noteq> [] \<and> get e1 ''id'' = Some kid \<and> get e2 ''id'' = Some kid \<and> distinct glob0 \<longrightarrow>
      gather_step kind f (foldl (gather_step kind f) ([], errs0, glob0) (es1 @ [e1] @ es2)) e2 =
        (fst (foldl (gather_step kind f) ([], errs0, glob0) (es1 @ [e1] @ es2)),
         fst (snd (foldl (gather_step kind f) ([], errs0, glob0) (es1 @ [e1] @ es2)))
         @ [violation_at f e2 (dup_local_msg kind kid),
            violation_at f e2 (dup_global_msg kind kid)]
         @ (if find_elem e2 ''lemma'' = None
            then [violation_at f e2 (missing_lemma_msg kind kid)] else []),
         snd (snd (foldl (gather_step kind f) ([], errs0, glob0) (es1 @ [e1] @ es2)))) \<and>
      count_list (snd (snd (foldl (gather_step kind f) ([], errs0, glob0) (es1 @ [e1] @ es2))))
        kid = 1) \<and>
   (kid \<noteq> [] \<and> register_trees inp = [(rfile, rroot)] \<and>
    length (filter (\<lambda>e. get e ''id'' = Some kid) (findall rroot ''kommentar'')) = 2 \<longrightarrow>
      length (filter (\<lambda>v. message v = dup_global_msg ''kommentar'' kid) (collect_errors inp)) = 1 \<and>
      count_list (global_kommentar_ids (gather_registers (register_trees inp))) kid = 1)"
proof (intro conjI impI)
  assume a: "kid \<noteq> [] \<and> get e1 ''id'' = Some kid \<and> get e2 ''id'' = Some kid \<and> distinct glob0"
  let ?s = "foldl (gather_step kind f) ([], errs0, glob0) (es1 @ [e1] @ es2)"
  from a have id2: "get e2 ''id'' = Some kid" "kid \<noteq> []" by simp_all
  obtain loc errs glob where s: "?s = (loc, errs, glob)"
    by (cases ?s)
  have "kid \<in> set (fst ?s)"
    unfolding gather_fold_local using a by auto
  then have loc: "kid \<in> set loc" by (simp only: s fst_conv)
  have "kid \<in> set (snd (snd ?s))"
    unfolding gather_fold_pool using a by auto
  then have glob: "kid \<in> set glob" by (simp only: s snd_conv)
  from a have "distinct glob0" by simp
  then have "distinct (snd (snd ?s))"
    by (rule gather_fold_distinct)
  then have d: "distinct glob" by (simp only: s snd_conv)
  have "gather_step kind f (loc, errs, glob) e2 =
      (loc,
       errs
       @ [violation_at f e2 (dup_local_msg kind kid), violation_at f e2 (dup_global_msg kind kid)]
       @ (if find_elem e2 ''lemma'' = None
          then [violation_at f e2 (missing_lemma_msg kind kid)] else []),
       glob)"
    using loc glob by (simp add: gather_step_id[OF id2] set_add_member)
  then show "gather_step kind f ?s e2 =
      (fst ?s,
       fst (snd ?s)
       @ [violation_at f e2 (dup_local_msg kind kid), violation_at f e2 (dup_global_msg kind kid)]
       @ (if find_elem e2 ''lemma'' = None
          then [violation_at f e2 (missing_lemma_msg kind kid)] else []),
       snd (snd ?s))"
    by (simp only: s fst_conv snd_conv)
  have "count_list glob kid = 1"
    using d glob by (rule count_list_distinct)
  then show "count_list (snd (snd ?s)) kid = 1"
    by (simp only: s snd_conv)
next
  assume a: "kid \<noteq> [] \<and> register_trees inp = [(rfile, rroot)] \<and>
    length (filter (\<lambda>e. get e ''id'' = Some kid) (findall rroot ''kommentar'')) = 2"
  then have kid: "kid \<noteq> []" and rs: "register_trees inp = [(rfile, rroot)]"
    and o: "length (filter (\<lambda>e. get e ''id'' = Some kid) (findall rroot ''kommentar'')) = 2"
    by simp_all
  let ?r0 = "\<lparr>errors = [], global_kommentar_ids = [], global_subsection_ids = []\<rparr>"
  have g: "gather_registers (register_trees inp) =
      gather_commentaries_and_subsections rroot rfile ?r0"
    by (simp add: gather_registers_def rs)
  have "length (filter (\<lambda>v. message v = dup_global_msg ''kommentar'' kid)
                  (errors (gather_registers (register_trees inp)))) = 1"
    unfolding g gather_doc_count[OF kid] using o by simp
  then show "length (filter (\<lambda>v. message v = dup_global_msg ''kommentar'' kid)
                       (collect_errors inp)) = 1"
    by (simp only: collect_errors_count)
  have "filter (\<lambda>e. get e ''id'' = Some kid) (findall rroot ''kommentar'') \<noteq> []"
    using o by auto
  then have "\<exists>e\<in>set (findall rroot ''kommentar''). get e ''id'' = Some kid"
    by (simp add: filter_empty_conv)
  then have "kid \<in> set (global_kommentar_ids (gather_registers (register_trees inp)))"
    unfolding g using kid by (auto simp: gather_doc_komm)
  then show "count_list (global_kommentar_ids (gather_registers (register_trees inp))) kid = 1"
    by (intro count_list_distinct gather_registers_distinct)
qed

theorem duplicate_in_one_register_witness:
  "collect_errors (ex_registers_only [(''reg.xml'', ex_reg_twice)]) =
     [\<lparr>file_name = ''reg.xml'', line_no = Line 4,
       message = ''Duplicate <kommentar id='' @ sq @ ''K1'' @ sq @ ''> in this file''\<rparr>,
      \<lparr>file_name = ''reg.xml'', line_no = Line 4,
       message = ''Duplicate <kommentar id='' @ sq @ ''K1'' @ sq
                   @ ''> across multiple registers''\<rparr>,
      \<lparr>file_name = ''reg.xml'', line_no = Line 8,
       message = ''Duplicate <subsection id='' @ sq @ ''S1'' @ sq @ ''> in this file''\<rparr>,
      \<lparr>file_name = ''reg.xml'', line_no = Line 8,
       message = ''Duplicate <subsection id='' @ sq @ ''S1'' @ sq
                   @ ''> across multiple registers''\<rparr>] \<and>
   global_kommentar_ids (gather_registers [(''reg.xml'', ex_reg_twice)]) = [''K1''] \<and>
   global_subsection_ids (gather_registers [(''reg.xml'', ex_reg_twice)]) = [''S1''] \<and>
   gather_step ''subsection'' ''reg.xml''
     (foldl (gather_step ''subsection'' ''reg.xml'') ([], [], [])
        ([] @ [Elem ''subsection'' [(''id'', ''S1'')] (Some 6) [Elem ''lemma'' [] (Some 7) []]]
         @ []))
     (Elem ''subsection'' [(''id'', ''S1'')] (Some 8) [Elem ''lemma'' [] (Some 9) []]) =
     ([''S1''],
      [\<lparr>file_name = ''reg.xml'', line_no = Line 8,
        message = ''Duplicate <subsection id='' @ sq @ ''S1'' @ sq @ ''> in this file''\<rparr>,
       \<lparr>file_name = ''reg.xml'', line_no = Line 8,
        message = ''Duplicate <subsection id='' @ sq @ ''S1'' @ sq
                    @ ''> across multiple registers''\<rparr>],
      [''S1''])"
  using
    duplicate_in_one_register [where kid = "''K1''"
      and inp = "ex_registers_only [(''reg.xml'', ex_reg_twice)]"
      and rfile = "''reg.xml''" and rroot = ex_reg_twice
      and ?e1.0 = "Elem ''kommentar'' [(''id'', ''K1'')] (Some 2) [Elem ''lemma'' [] (Some 3) []]"
      and ?e2.0 = "Elem ''kommentar'' [(''id'', ''K1'')] (Some 4) [Elem ''lemma'' [] (Some 5) []]"
      and ?glob0.0 = "[]" and ?errs0.0 = "[]" and ?es1.0 = "[]" and ?es2.0 = "[]"
      and kind = "''kommentar''" and f = "''reg.xml''"]
    duplicate_in_one_register [where kid = "''S1''"
      and ?e1.0 = "Elem ''subsection'' [(''id'', ''S1'')] (Some 6) [Elem ''lemma'' [] (Some 7) []]"
      and ?e2.0 = "Elem ''subsection'' [(''id'', ''S1'')] (Some 8) [Elem ''lemma'' [] (Some 9) []]"
      and ?glob0.0 = "[]" and ?errs0.0 = "[]" and ?es1.0 = "[]" and ?es2.0 = "[]"
      and kind = "''subsection''" and f = "''reg.xml''"]
  by (simp add: ex_registers_only_def ex_reg_twice_def ex_empty_doc_def collect_simps
      gather_simps)

section \<open>The page of the transcription scan\<close>

lemma brief_step_page:
  "current_page (brief_step s e) =
     (if tag e = ''page'' \<and> truthy (get e ''index'') then get e ''index'' else current_page s)"
  by (simp add: brief_step_def Let_def)

lemma brief_step_letter:
  "current_letter (brief_step s e) =
     (if tag e = ''letterText'' then get e ''letter'' else current_letter s)"
  by (simp add: brief_step_def Let_def)

lemma brief_fold_page:
  "current_page (foldl brief_step s es) =
     (if filter (\<lambda>e. tag e = ''page'' \<and> truthy (get e ''index'')) es = []
      then current_page s
      else get (last (filter (\<lambda>e. tag e = ''page'' \<and> truthy (get e ''index'')) es))
             ''index'')"
proof (induction es rule: rev_induct)
  case Nil
  show ?case by simp
next
  case (snoc e es)
  show ?case
    by (simp add: brief_step_page snoc.IH)
qed

lemma brief_fold_page_kept:
  "\<forall>e\<in>set es. \<not> (tag e = ''page'' \<and> truthy (get e ''index'')) \<Longrightarrow>
     current_page (foldl brief_step s es) = current_page s"
  by (simp add: brief_fold_page filter_empty_conv)

lemma brief_fold_letter_kept:
  "\<forall>e\<in>set es. tag e \<noteq> ''letterText'' \<Longrightarrow>
     current_letter (foldl brief_step s es) = current_letter s"
  by (induction es rule: rev_induct) (simp_all add: brief_step_letter)

lemma brief_step_lines_mono:
  "lookup_lines (letter_pages s) l p \<subseteq> lookup_lines (letter_pages (brief_step s e)) l p"
  by (auto simp: brief_step_def Let_def lookup_add_line)

lemma brief_fold_lines_mono:
  "lookup_lines (letter_pages s) l p \<subseteq> lookup_lines (letter_pages (foldl brief_step s es)) l p"
proof (induction es rule: rev_induct)
  case Nil
  show ?case by simp
next
  case (snoc e es)
  show ?case
    using snoc.IH brief_step_lines_mono[of "foldl brief_step s es" l p e] by auto
qed

lemma brief_step_line_recorded:
  assumes "tag e = ''line''" and "get e ''index'' = Some i" and "i \<noteq> []"
    and "current_letter s = Some l" and "l \<noteq> []"
    and "current_page s = Some p" and "p \<noteq> []"
  shows "i \<in> lookup_lines (letter_pages (brief_step s e)) l p"
  using assms by (simp add: brief_step_def Let_def truthy_def lookup_add_line)

text \<open>
  C9. The scan of the transcription document goes through the elements in document order.
  A step changes the current page only at a \<open>page\<close> element with a (non-empty) index; a
  \<open>letterText\<close> element sets the current letter and leaves the page as it is. So after
  any sequence of elements the current page is the index of the last indexed page marker
  seen, or none. Consequently: when the elements before a \<open>letterText\<close> element with
  letter \<open>l\<close> left the current page at \<open>p\<close>, and between that element and a \<open>line\<close>
  element with index \<open>i\<close> there is no indexed page marker (and no further \<open>letterText\<close>
  element, which would change the letter), then \<open>i\<close> is recorded for the new letter \<open>l\<close>
  under the old page \<open>p\<close>, and stays recorded whatever follows.
\<close>

theorem page_carries_over:
  "current_page (brief_step s e) =
     (if tag e = ''page'' \<and> truthy (get e ''index'') then get e ''index'' else current_page s) \<and>
   current_page (brief_scan es) =
     (if filter (\<lambda>e. tag e = ''page'' \<and> truthy (get e ''index'')) es = [] then None
      else get (last (filter (\<lambda>e. tag e = ''page'' \<and> truthy (get e ''index'')) es))
             ''index'') \<and>
   (current_page (brief_scan pre) = Some p \<and> p \<noteq> [] \<and>
    tag lt = ''letterText'' \<and> get lt ''letter'' = Some l \<and> l \<noteq> [] \<and>
    (\<forall>e\<in>set mid. tag e \<noteq> ''letterText'' \<and> \<not> (tag e = ''page'' \<and> truthy (get e ''index''))) \<and>
    tag ln = ''line'' \<and> get ln ''index'' = Some i \<and> i \<noteq> [] \<longrightarrow>
      i \<in> lookup_lines (letter_pages (brief_scan (pre @ [lt] @ mid @ [ln] @ post))) l p)"
proof (intro conjI impI)
  show "current_page (brief_step s e) =
     (if tag e = ''page'' \<and> truthy (get e ''index'') then get e ''index'' else current_page s)"
    by (rule brief_step_page)
  show "current_page (brief_scan es) =
     (if filter (\<lambda>e. tag e = ''page'' \<and> truthy (get e ''index'')) es = [] then None
      else get (last (filter (\<lambda>e. tag e = ''page'' \<and> truthy (get e ''index'')) es))
             ''index'')"
    by (simp add: brief_scan_def brief_fold_page)
next
  assume a: "current_page (brief_scan pre) = Some p \<and> p \<noteq> [] \<and>
    tag lt = ''letterText'' \<and> get lt ''letter'' = Some l \<and> l \<noteq> [] \<and>
    (\<forall>e\<in>set mid. tag e \<noteq> ''letterText'' \<and> \<not> (tag e = ''page'' \<and> truthy (get e ''index''))) \<and>
    tag ln = ''line'' \<and> get ln ''index'' = Some i \<and> i \<noteq> []"
  let ?s0 = "brief_scan pre"
  let ?s1 = "brief_step ?s0 lt"
  let ?s2 = "foldl brief_step ?s1 mid"
  let ?s3 = "brief_step ?s2 ln"
  have scan: "brief_scan (pre @ [lt] @ mid @ [ln] @ post) = foldl brief_step ?s3 post"
    by (simp add: brief_scan_def)
  from a have mid_l: "\<forall>e\<in>set mid. tag e \<noteq> ''letterText''"
    and mid_p: "\<forall>e\<in>set mid. \<not> (tag e = ''page'' \<and> truthy (get e ''index''))"
    by auto
  have "current_letter ?s1 = Some l"
    using a by (simp add: brief_step_letter)
  then have letter: "current_letter ?s2 = Some l"
    by (simp add: brief_fold_letter_kept[OF mid_l])
  have "current_page ?s1 = Some p"
    using a by (simp add: brief_step_page)
  then have page: "current_page ?s2 = Some p"
    by (simp add: brief_fold_page_kept[OF mid_p])
  have "i \<in> lookup_lines (letter_pages ?s3) l p"
    using a letter page by (intro brief_step_line_recorded) simp_all
  then show "i \<in> lookup_lines (letter_pages (brief_scan (pre @ [lt] @ mid @ [ln] @ post))) l p"
    unfolding scan using brief_fold_lines_mono by blast
qed

theorem page_carries_over_witness:
  "iter ex_carry =
     [ex_carry,
      Elem ''letterText'' [(''letter'', ''L1'')] (Some 2)
        [Elem ''page'' [(''index'', ''3'')] (Some 3) [],
         Elem ''line'' [(''index'', ''1'')] (Some 4) []],
      Elem ''page'' [(''index'', ''3'')] (Some 3) [],
      Elem ''line'' [(''index'', ''1'')] (Some 4) []]
     @ [Elem ''letterText'' [(''letter'', ''L2'')] (Some 5)
          [Elem ''line'' [(''index'', ''2'')] (Some 6) []]]
     @ [] @ [Elem ''line'' [(''index'', ''2'')] (Some 6) []] @ [] \<and>
   build_letter_page_line_map_brief ex_carry =
     [(''L1'', [(''3'', {''1''})]), (''L2'', [(''3'', {''2''})])] \<and>
   ''2'' \<in> lookup_lines (build_letter_page_line_map_brief ex_carry) ''L2'' ''3''"
  using page_carries_over [where
      pre = "[ex_carry,
              Elem ''letterText'' [(''letter'', ''L1'')] (Some 2)
                [Elem ''page'' [(''index'', ''3'')] (Some 3) [],
                 Elem ''line'' [(''index'', ''1'')] (Some 4) []],
              Elem ''page'' [(''index'', ''3'')] (Some 3) [],
              Elem ''line'' [(''index'', ''1'')] (Some 4) []]"
      and lt = "Elem ''letterText'' [(''letter'', ''L2'')] (Some 5)
                  [Elem ''line'' [(''index'', ''2'')] (Some 6) []]"
      and mid = "[]" and ln = "Elem ''line'' [(''index'', ''2'')] (Some 6) []"
      and post = "[]" and p = "''3''" and l = "''L2''" and i = "''2''"]
  by (simp add: ex_carry_def build_letter_page_line_map_brief_def find_elem_def findall_def
      brief_scan_def brief_step_def get_def truthy_def add_line_def pages_of_def lines_of_def
      lookup_lines_def Let_def)

section \<open>A reference with an empty value\<close>


section \<open>The report\<close>










end
